theory Spec2Isabelle
  imports Main
begin

section \<open>Go standard-library string functions used by the provider\<close>

text \<open>
  Go strings are byte sequences; they are modelled as \<^typ>\<open>string\<close> (a list of 8-bit
  characters). Only the functions the package \<open>internal/unbound\<close> calls are modelled.
\<close>

text \<open>\<open>strings.HasPrefix(s, prefix)\<close>: \<open>len(s) >= len(prefix) && s[:len(prefix)] == prefix\<close>.\<close>

definition HasPrefix :: "string \<Rightarrow> string \<Rightarrow> bool" where
  "HasPrefix s p = (length p \<le> length s \<and> take (length p) s = p)"

text \<open>\<open>strings.Replace(s, old, new, 1)\<close>: the first occurrence of \<open>old\<close> is replaced;
  an empty \<open>old\<close> matches at the beginning of the string.\<close>

fun Replace1 :: "string \<Rightarrow> string \<Rightarrow> string \<Rightarrow> string" where
  "Replace1 [] old new = (if old = [] then new else [])"
| "Replace1 (c # cs) old new =
     (if HasPrefix (c # cs) old then new @ drop (length old) (c # cs)
      else c # Replace1 cs old new)"

text \<open>\<open>strings.Split(s, sep)\<close> for a separator of one byte: the result is never empty,
  \<open>Split("", sep)\<close> is a list holding one empty string.\<close>

fun Split :: "string \<Rightarrow> char \<Rightarrow> string list" where
  "Split [] sep = [[]]"
| "Split (c # cs) sep =
     (if c = sep then [] # Split cs sep
      else (case Split cs sep of
              [] \<Rightarrow> [[c]]
            | w # ws \<Rightarrow> (c # w) # ws))"

text \<open>\<open>strings.Join(elems, sep)\<close>.\<close>

fun Join :: "string list \<Rightarrow> string \<Rightarrow> string" where
  "Join [] sep = []"
| "Join [w] sep = w"
| "Join (w # ws) sep = w @ sep @ Join ws sep"

text \<open>
  \<open>strings.TrimSpace\<close> removes leading and trailing Unicode white space. On the UTF-8
  bytes of a Go string these are the following byte sequences: the ASCII characters tab,
  line feed, vertical tab, form feed, carriage return and space, and the encodings of
  U+0085, U+00A0, U+1680, U+2000 to U+200A, U+2028, U+2029, U+202F, U+205F and U+3000.
\<close>

definition asciiSpace :: "char list" where
  "asciiSpace = [CHR 0x09, CHR 0x0A, CHR 0x0B, CHR 0x0C, CHR 0x0D, CHR 0x20]"

definition unicodeSpace :: "string list" where
  "unicodeSpace =
     [[CHR 0xC2, CHR 0x85], [CHR 0xC2, CHR 0xA0], [CHR 0xE1, CHR 0x9A, CHR 0x80],
      [CHR 0xE2, CHR 0x80, CHR 0x80], [CHR 0xE2, CHR 0x80, CHR 0x81],
      [CHR 0xE2, CHR 0x80, CHR 0x82], [CHR 0xE2, CHR 0x80, CHR 0x83],
      [CHR 0xE2, CHR 0x80, CHR 0x84], [CHR 0xE2, CHR 0x80, CHR 0x85],
      [CHR 0xE2, CHR 0x80, CHR 0x86], [CHR 0xE2, CHR 0x80, CHR 0x87],
      [CHR 0xE2, CHR 0x80, CHR 0x88], [CHR 0xE2, CHR 0x80, CHR 0x89],
      [CHR 0xE2, CHR 0x80, CHR 0x8A], [CHR 0xE2, CHR 0x80, CHR 0xA8],
      [CHR 0xE2, CHR 0x80, CHR 0xA9], [CHR 0xE2, CHR 0x80, CHR 0xAF],
      [CHR 0xE2, CHR 0x81, CHR 0x9F], [CHR 0xE3, CHR 0x80, CHR 0x80]]"

definition spaceSeqs :: "string list" where
  "spaceSeqs = map (\<lambda>c. [c]) asciiSpace @ unicodeSpace"

text \<open>The white-space sequence the string starts with, if there is one.\<close>

definition leadingSpace :: "string list \<Rightarrow> string \<Rightarrow> string option" where
  "leadingSpace seqs s = find (\<lambda>w. HasPrefix s w) seqs"

function TrimLeft :: "string list \<Rightarrow> string \<Rightarrow> string" where
  "TrimLeft seqs s =
     (case leadingSpace seqs s of
        None \<Rightarrow> s
      | Some w \<Rightarrow> if w = [] then s else TrimLeft seqs (drop (length w) s))"
  by pat_completeness auto
termination
proof (relation "measure (\<lambda>(seqs, s). length s)")
  show "wf (measure (\<lambda>(seqs, s). length s))" by simp
next
  fix seqs :: "string list" and s w :: string
  assume f: "leadingSpace seqs s = Some w" and ne: "w \<noteq> []"
  from f have "HasPrefix s w"
    by (auto simp add: leadingSpace_def find_Some_iff)
  with ne have "0 < length w" "length w \<le> length s"
    by (simp_all add: HasPrefix_def)
  then have "length s - length w < length s"
    by arith
  then show "((seqs, drop (length w) s), (seqs, s)) \<in> measure (\<lambda>(seqs, s). length s)"
    by simp
qed

declare TrimLeft.simps [simp del]

definition TrimSpace :: "string \<Rightarrow> string" where
  "TrimSpace s = rev (TrimLeft (map rev spaceSeqs) (rev (TrimLeft spaceSeqs s)))"

section \<open>Base64, standard encoding\<close>

text \<open>
  \<open>base64.StdEncoding\<close> of the Go standard library: the alphabet of RFC 4648 with
  \<open>=\<close> padding. \<open>DecodeString\<close> ignores carriage returns and line feeds, demands the
  padding, and does not check the unused bits of the last group (the encoding is not
  strict).
\<close>

definition encodeStd :: "char list" where
  "encodeStd = ''ABCDEFGHIJKLMNOPQRSTUVWXYZabcdefghijklmnopqrstuvwxyz0123456789+/''"

definition encChar :: "nat \<Rightarrow> char" where
  "encChar n = encodeStd ! (n mod 64)"

fun EncodeToString :: "string \<Rightarrow> string" where
  "EncodeToString [] = []"
| "EncodeToString [a] =
     (let x = (of_char a :: nat)
      in [encChar (x div 4), encChar ((x mod 4) * 16), CHR ''='', CHR ''=''])"
| "EncodeToString [a, b] =
     (let x = (of_char a :: nat); y = (of_char b :: nat)
      in [encChar (x div 4), encChar ((x mod 4) * 16 + y div 16),
          encChar ((y mod 16) * 4), CHR ''=''])"
| "EncodeToString (a # b # c # rest) =
     (let x = (of_char a :: nat); y = (of_char b :: nat); z = (of_char c :: nat)
      in [encChar (x div 4), encChar ((x mod 4) * 16 + y div 16),
          encChar ((y mod 16) * 4 + z div 64), encChar (z mod 64)]
         @ EncodeToString rest)"

definition decodeMap :: "char \<Rightarrow> nat option" where
  "decodeMap c = map_of (zip encodeStd [0 ..< 64]) c"

text \<open>Decoding of the input without its line breaks, four characters at a time.\<close>

fun decodeQuanta :: "string \<Rightarrow> string option" where
  "decodeQuanta [] = Some []"
| "decodeQuanta (a # b # c # d # rest) =
     (case (decodeMap a, decodeMap b) of
        (Some x, Some y) \<Rightarrow>
          (if c = CHR ''='' then
             (if d = CHR ''='' \<and> rest = [] then Some [char_of (x * 4 + y div 16)] else None)
           else
             (case decodeMap c of
                None \<Rightarrow> None
              | Some z \<Rightarrow>
                  (if d = CHR ''='' then
                     (if rest = []
                      then Some [char_of (x * 4 + y div 16), char_of ((y mod 16) * 16 + z div 4)]
                      else None)
                   else
                     (case decodeMap d of
                        None \<Rightarrow> None
                      | Some w \<Rightarrow>
                          map_option
                            (\<lambda>r. [char_of (x * 4 + y div 16),
                                  char_of ((y mod 16) * 16 + z div 4),
                                  char_of ((z mod 4) * 64 + w)] @ r)
                            (decodeQuanta rest)))))
      | _ \<Rightarrow> None)"
| "decodeQuanta _ = None"

definition DecodeString :: "string \<Rightarrow> string option" where
  "DecodeString s = decodeQuanta (filter (\<lambda>c. c \<noteq> CHR 0x0A \<and> c \<noteq> CHR 0x0D) s)"

section \<open>Data model\<close>

text \<open>
  A Go slice is nil or holds a list of elements, and a nil slice is not the same value as
  an empty one: \<open>None\<close> is the nil slice, \<open>Some xs\<close> the slice with the elements \<open>xs\<close>.
  \<open>len\<close>, \<open>range\<close> and \<open>append\<close> only see the elements.
\<close>

type_synonym 'a slice = "'a list option"

definition elems :: "'a slice \<Rightarrow> 'a list" where
  "elems s = (case s of None \<Rightarrow> [] | Some xs \<Rightarrow> xs)"

text \<open>
  \<open>endpoint.Endpoint\<close> and \<open>endpoint.ProviderSpecificProperty\<close> of the external-dns
  library, with all their fields. \<open>Targets\<close> and \<open>ProviderSpecific\<close> are slices,
  \<open>RecordTTL\<close> is an integer, \<open>Labels\<close> is a Go map from strings to strings: \<open>None\<close> is
  the nil map, \<open>Some m\<close> the map with the entries of \<open>m\<close>. The lists of a change-set hold
  pointers to endpoints; they are taken to be non-nil and are modelled by the endpoints
  they point to.
\<close>

record ProviderSpecificProperty =
  Name :: string
  Value :: string

record Endpoint =
  DNSName :: string
  Targets :: "string slice"
  RecordType :: string
  SetIdentifier :: string
  RecordTTL :: int
  Labels :: "(string \<rightharpoonup> string) option"
  ProviderSpecific :: "ProviderSpecificProperty slice"

text \<open>The record-type constants of the external-dns library.\<close>

definition RecordTypeA :: string where "RecordTypeA = ''A''"

definition RecordTypeAAAA :: string where "RecordTypeAAAA = ''AAAA''"

definition RecordTypeTXT :: string where "RecordTypeTXT = ''TXT''"

text \<open>\<open>endpoint.NewTargets\<close> builds a non-nil slice from its arguments;
  \<open>Targets.String\<close> joins the targets with a semicolon.\<close>

definition NewTargets :: "string \<Rightarrow> string slice" where
  "NewTargets target = Some [target]"

definition Targets_String :: "string slice \<Rightarrow> string" where
  "Targets_String t = Join (elems t) '';''"

text \<open>\<open>Record\<close> (records.go): a host override as the resolver stores it.\<close>

record Record =
  UUID :: string
  Hostname :: string
  Domain_f :: string
  Rr :: string
  Server :: string
  Enabled :: string
  Description :: string

text \<open>\<open>plan.Changes\<close> of the external-dns library.\<close>

record Changes =
  Create :: "Endpoint slice"
  UpdateOld :: "Endpoint slice"
  UpdateNew :: "Endpoint slice"
  Delete :: "Endpoint slice"

text \<open>
  \<open>plan.Changes.HasChanges\<close> belongs to the external-dns library and is not part of this
  repository. The library defines it as
  \<open>len(c.Create) > 0 || len(c.Delete) > 0 || !cmp.Equal(c.UpdateNew, c.UpdateOld)\<close>.
  \<open>cmp.Equal\<close> compares the two slices in depth: a nil slice or map equals only a nil
  one, and two endpoints are equal when all their fields are. With slices and maps
  modelled as above this is the equality of the model's values.
\<close>

definition HasChanges :: "Changes \<Rightarrow> bool" where
  "HasChanges c =
     (elems (Create c) \<noteq> [] \<or> elems (Delete c) \<noteq> [] \<or> UpdateNew c \<noteq> UpdateOld c)"

text \<open>\<open>append(changes.Delete, changes.UpdateOld...)\<close> and
  \<open>append(changes.Create, changes.UpdateNew...)\<close>, as the lists the loops range over.\<close>

definition deletions :: "Changes \<Rightarrow> Endpoint list" where
  "deletions c = elems (Delete c) @ elems (UpdateOld c)"

definition creations :: "Changes \<Rightarrow> Endpoint list" where
  "creations c = elems (Create c) @ elems (UpdateNew c)"

section \<open>records.go\<close>

definition DescriptionPrefix :: string where
  "DescriptionPrefix = ''Managed by K8s external-dns''"

definition supportedType :: "string \<Rightarrow> bool" where
  "supportedType recordType = (recordType = RecordTypeA \<or> recordType = RecordTypeAAAA)"

definition endpointsFromBase64Description :: "string \<Rightarrow> string \<Rightarrow> Endpoint list option" where
  "endpointsFromBase64Description dnsName description =
     (if \<not> HasPrefix description DescriptionPrefix then None
      else
        (let stripped = TrimSpace (Replace1 description DescriptionPrefix [])
         in case DecodeString stripped of
              None \<Rightarrow> None
            | Some decoded \<Rightarrow>
                Some [\<lparr>DNSName = dnsName, Targets = NewTargets decoded,
                       RecordType = RecordTypeTXT, SetIdentifier = [], RecordTTL = 0,
                       Labels = None, ProviderSpecific = None\<rparr>,
                      \<lparr>DNSName = ''a-'' @ dnsName, Targets = NewTargets decoded,
                       RecordType = RecordTypeTXT, SetIdentifier = [], RecordTTL = 0,
                       Labels = None, ProviderSpecific = None\<rparr>]))"

text \<open>The endpoint built for one row: \<open>strings.Split(row.Rr, " ")[0]\<close> is the text before
  the first space (the split is never empty).\<close>

definition marshalledEndpoint :: "Record \<Rightarrow> Endpoint" where
  "marshalledEndpoint row =
     \<lparr>DNSName = Hostname row @ ''.'' @ Domain_f row,
      Targets = NewTargets (Server row),
      RecordType = (case Split (Rr row) (CHR '' '') of [] \<Rightarrow> [] | w # ws \<Rightarrow> w),
      SetIdentifier = UUID row,
      RecordTTL = 0,
      Labels = (if Description row \<noteq> [] then Some [''description'' \<mapsto> Description row]
                else None),
      ProviderSpecific = None\<rparr>"

fun ToEndpoints :: "Record list \<Rightarrow> Endpoint list" where
  "ToEndpoints [] = []"
| "ToEndpoints (row # rows) =
     marshalledEndpoint row #
     (case endpointsFromBase64Description (DNSName (marshalledEndpoint row)) (Description row) of
        Some txtEndpoints \<Rightarrow> txtEndpoints
      | None \<Rightarrow> [])
     @ ToEndpoints rows"

section \<open>The ownership cache\<close>

type_synonym heritages = "string \<rightharpoonup> string"

text \<open>One round of the loop of \<open>cacheFromSlice\<close>.\<close>

definition cacheStep :: "heritages \<Rightarrow> Endpoint \<Rightarrow> heritages" where
  "cacheStep out create =
     (if RecordType create = RecordTypeTXT then
        (let out1 = out(DNSName create \<mapsto> Targets_String (Targets create))
         in if HasPrefix (DNSName create) ''a-''
            then out1(Replace1 (DNSName create) ''a-'' [] \<mapsto> Targets_String (Targets create))
            else out1)
      else out)"

definition cacheFromSlice :: "Endpoint list \<Rightarrow> heritages" where
  "cacheFromSlice input = foldl cacheStep Map.empty input"

definition removeRecords :: "heritages \<Rightarrow> Endpoint list \<Rightarrow> heritages" where
  "removeRecords h toDel =
     foldl (\<lambda>m del. if supportedType (RecordType del) then m(DNSName del := None) else m) h toDel"

definition updateFromPlan :: "heritages \<Rightarrow> Changes \<Rightarrow> heritages" where
  "updateFromPlan h changes =
     removeRecords h (elems (Delete changes)) ++ cacheFromSlice (creations changes)"

definition updateReadRecords :: "heritages \<Rightarrow> Endpoint list \<Rightarrow> heritages" where
  "updateReadRecords h read = cacheFromSlice read"

definition appendToDescription :: "string \<Rightarrow> string" where
  "appendToDescription toAppend = DescriptionPrefix @ '' '' @ toAppend"

text \<open>Reading a Go map at a missing key gives the empty string.\<close>

definition createDescription :: "heritages \<Rightarrow> string \<Rightarrow> string" where
  "createDescription h dnsName =
     appendToDescription (EncodeToString (case h dnsName of None \<Rightarrow> [] | Some v \<Rightarrow> v))"

section \<open>Errors\<close>

text \<open>
  Go error values. \<open>ErrRequestFailed\<close> and \<open>ErrMarshalling\<close> are the package's two
  sentinel errors. \<open>External\<close> is an error made outside the package (by \<open>net/http\<close>,
  \<open>io\<close> or \<open>encoding/json\<close>), known by its message. \<open>Errorf\<close> is
  \<open>fmt.Errorf\<close> with a format that ends in \<open>%w\<close>: the format, the other arguments
  and the wrapped error. \<open>ErrorsJoin\<close> is \<open>errors.Join\<close>.
\<close>

datatype fmtArg = Str string | Num nat

datatype error =
    ErrRequestFailed
  | ErrMarshalling
  | External string
  | Errorf string "fmtArg list" error
  | ErrorsJoin "error list"

text \<open>\<open>errors.Is(err, target)\<close> for a target that is a sentinel or an external error:
  the chain of wrapped errors is searched, every member of a join is tried.\<close>

fun errorsIs :: "error \<Rightarrow> error \<Rightarrow> bool" where
  "errorsIs ErrRequestFailed target = (target = ErrRequestFailed)"
| "errorsIs ErrMarshalling target = (target = ErrMarshalling)"
| "errorsIs (External m) target = (target = External m)"
| "errorsIs (Errorf f args err) target = errorsIs err target"
| "errorsIs (ErrorsJoin errs) target = (\<exists>err \<in> set errs. errorsIs err target)"

section \<open>The remote API and the provider state\<close>

text \<open>
  A request to the resolver's API, named by the endpoint it goes to and by what it
  carries: \<open>SearchHostOverride\<close> is the GET of \<open>SearchOverridesEndpoint\<close>,
  \<open>AddHostOverride r\<close> the POST of \<open>AddOverrideEndpoint\<close> whose body is the JSON of
  \<open>AddOverrideRequest{Host: r}\<close>, \<open>DelHostOverride id\<close> the POST of
  \<open>path.Join(DelOverrideEndpoint, id)\<close> and \<open>Reconfigure\<close> the POST of
  \<open>ApplyChangesEndpoint\<close>, the last two with the body \<open>emptyJSON()\<close>. The base URL, the
  authorisation header and the JSON text of the body are not modelled; \<open>json.Marshal\<close>
  of a struct of strings does not fail, so \<open>createRequestJSON\<close> has no error result.
\<close>

datatype request =
    SearchHostOverride
  | AddHostOverride Record
  | DelHostOverride string
  | Reconfigure

text \<open>An HTTP response: the status code and status line, the bytes \<open>io.ReadAll\<close> reads
  from the body, and the error of that read, if any.\<close>

record response =
  StatusCode :: nat
  Status :: string
  Body :: string
  BodyErr :: "string option"

datatype http_result = TransportError string | Response response

text \<open>
  What the provider depends on and does not decide: \<open>NewRequest\<close> is the error of
  \<open>http.NewRequestWithContext\<close> for a request, if any; \<open>Do\<close> is \<open>client.Do\<close>, the
  answer of the remote side to a request given the requests sent before it;
  \<open>UnmarshalSearchHostResp\<close> is \<open>json.Unmarshal\<close> into a \<open>SearchHostResp\<close> (the error
  message or the rows), \<open>UnmarshalOperationResponse\<close> is \<open>json.Unmarshal\<close> into an
  \<open>OperationResponse\<close> (the error, if any, and the \<open>Result\<close> field afterwards).
\<close>

record env =
  NewRequest :: "request \<Rightarrow> string option"
  Do :: "request list \<Rightarrow> request \<Rightarrow> http_result"
  UnmarshalSearchHostResp :: "string \<Rightarrow> string + Record list"
  UnmarshalOperationResponse :: "string \<Rightarrow> string option \<times> string"

text \<open>The state a call works on: the ownership cache of the provider
  (\<open>knownRecords.heritages\<close>) and the requests sent to the remote side so far.\<close>

record state =
  knownRecords :: heritages
  sent :: "request list"

definition CreateOpSuccessResponse :: string where
  "CreateOpSuccessResponse = ''saved''"

definition DeleteOpSuccessResponse :: string where
  "DeleteOpSuccessResponse = ''deleted''"

definition StatusOK :: nat where
  "StatusOK = 200"

section \<open>provider.go\<close>

definition apiRequest :: "env \<Rightarrow> request \<Rightarrow> error option" where
  "apiRequest e req =
     (case NewRequest e req of
        Some m \<Rightarrow> Some (Errorf ''create request: %w'' [] (External m))
      | None \<Rightarrow> None)"

definition postAPIRequest :: "env \<Rightarrow> request \<Rightarrow> error option" where
  "postAPIRequest e req = apiRequest e req"

text \<open>\<open>u.client.Do(req)\<close>: the request is sent and recorded.\<close>

definition clientDo :: "env \<Rightarrow> state \<Rightarrow> request \<Rightarrow> http_result \<times> state" where
  "clientDo e s req = (Do e (sent s) req, s\<lparr>sent := sent s @ [req]\<rparr>)"

text \<open>\<open>responseBody\<close> only logs a read error and returns what was read.\<close>

definition responseBody :: "response \<Rightarrow> string" where
  "responseBody resp = Body resp"

definition checkResponse :: "env \<Rightarrow> string \<Rightarrow> string \<Rightarrow> error option" where
  "checkResponse e body wantResult =
     (case UnmarshalOperationResponse e body of
        (err, result) \<Rightarrow>
          if err \<noteq> None \<or> result \<noteq> wantResult
          then Some (Errorf ''response %q: %w'' [Str result] ErrRequestFailed)
          else None)"

definition createRequestJSON :: "heritages \<Rightarrow> Endpoint \<Rightarrow> Record list" where
  "createRequestJSON h endpoint =
     (let dnsSplit = Split (DNSName endpoint) (CHR ''.'')
      in map (\<lambda>target.
                \<lparr>UUID = [],
                 Hostname = (case dnsSplit of [] \<Rightarrow> [] | w # ws \<Rightarrow> w),
                 Domain_f = Join (drop 1 dnsSplit) ''.'',
                 Rr = RecordType endpoint,
                 Server = target,
                 Enabled = ''1'',
                 Description = createDescription h (DNSName endpoint)\<rparr>)
             (elems (Targets endpoint)))"

definition createTarget :: "env \<Rightarrow> state \<Rightarrow> Record \<Rightarrow> Endpoint \<Rightarrow> error option \<times> state" where
  "createTarget e s data endpoint =
     (case postAPIRequest e (AddHostOverride data) of
        Some err \<Rightarrow> (Some (Errorf ''create endpoint request: %w'' [] err), s)
      | None \<Rightarrow>
          (case clientDo e s (AddHostOverride data) of
             (TransportError m, s') \<Rightarrow> (Some (Errorf ''create http do: %w'' [] (External m)), s')
           | (Response resp, s') \<Rightarrow>
               if StatusCode resp \<noteq> StatusOK
               then (Some (Errorf ''response status: %v: %w'' [Num (StatusCode resp)]
                             ErrRequestFailed), s')
               else (checkResponse e (responseBody resp) CreateOpSuccessResponse, s')))"

text \<open>The loop of \<open>createEndpoint\<close> over the request bodies.\<close>

fun createTargets :: "env \<Rightarrow> state \<Rightarrow> Record list \<Rightarrow> Endpoint \<Rightarrow> error option \<times> state" where
  "createTargets e s [] endpoint = (None, s)"
| "createTargets e s (data # requestDatas) endpoint =
     (case createTarget e s data endpoint of
        (Some err, s') \<Rightarrow> (Some err, s')
      | (None, s') \<Rightarrow> createTargets e s' requestDatas endpoint)"

definition createEndpoint :: "env \<Rightarrow> state \<Rightarrow> Endpoint \<Rightarrow> error option \<times> state" where
  "createEndpoint e s endpoint =
     createTargets e s (createRequestJSON (knownRecords s) endpoint) endpoint"

fun createEndpoints :: "env \<Rightarrow> state \<Rightarrow> Endpoint list \<Rightarrow> error option \<times> state" where
  "createEndpoints e s [] = (None, s)"
| "createEndpoints e s (ep # endpoints) =
     (if supportedType (RecordType ep) then
        (case createEndpoint e s ep of
           (Some err, s') \<Rightarrow> (Some (Errorf ''create endpoint: %w'' [] err), s')
         | (None, s') \<Rightarrow> createEndpoints e s' endpoints)
      else createEndpoints e s endpoints)"

definition deleteEndpoint :: "env \<Rightarrow> state \<Rightarrow> Endpoint \<Rightarrow> error option \<times> state" where
  "deleteEndpoint e s endpoint =
     (case apiRequest e (DelHostOverride (SetIdentifier endpoint)) of
        Some err \<Rightarrow> (Some (Errorf ''delete request: %w'' [] err), s)
      | None \<Rightarrow>
          (case clientDo e s (DelHostOverride (SetIdentifier endpoint)) of
             (TransportError m, s') \<Rightarrow> (Some (Errorf ''delete http do: %w'' [] (External m)), s')
           | (Response resp, s') \<Rightarrow>
               if StatusCode resp \<noteq> StatusOK
               then (Some (Errorf ''response status: %v: %w'' [Num (StatusCode resp)]
                             ErrRequestFailed), s')
               else (checkResponse e (responseBody resp) DeleteOpSuccessResponse, s')))"

fun deleteEndpoints :: "env \<Rightarrow> state \<Rightarrow> Endpoint list \<Rightarrow> error option \<times> state" where
  "deleteEndpoints e s [] = (None, s)"
| "deleteEndpoints e s (endpoint # endpoints) =
     (case deleteEndpoint e s endpoint of
        (Some err, s') \<Rightarrow> (Some (Errorf ''%q: %w'' [Str (DNSName endpoint)] err), s')
      | (None, s') \<Rightarrow> deleteEndpoints e s' endpoints)"

definition reconfigure :: "env \<Rightarrow> state \<Rightarrow> error option \<times> state" where
  "reconfigure e s =
     (case postAPIRequest e Reconfigure of
        Some err \<Rightarrow> (Some (Errorf ''reconfigure request create: %w'' [] err), s)
      | None \<Rightarrow>
          (case clientDo e s Reconfigure of
             (TransportError m, s') \<Rightarrow> (Some (Errorf ''reconfigure: %w'' [] (External m)), s')
           | (Response resp, s') \<Rightarrow>
               if StatusCode resp \<noteq> StatusOK
               then (Some (Errorf ''response status: %v: %w'' [Num (StatusCode resp)]
                             ErrRequestFailed), s')
               else (checkResponse e (responseBody resp) [], s')))"

definition marshalEndpoints :: "env \<Rightarrow> response \<Rightarrow> error + Endpoint list" where
  "marshalEndpoints e resp =
     (case BodyErr resp of
        Some m \<Rightarrow> Inl (Errorf ''body read err: %w'' [] (External m))
      | None \<Rightarrow>
          (case UnmarshalSearchHostResp e (Body resp) of
             Inl m \<Rightarrow> Inl (Errorf ''unmarshal resp: %w'' [] (External m))
           | Inr rows \<Rightarrow> Inr (ToEndpoints rows)))"

definition Records :: "env \<Rightarrow> state \<Rightarrow> (error + Endpoint list) \<times> state" where
  "Records e s =
     (case apiRequest e SearchHostOverride of
        Some err \<Rightarrow> (Inl (Errorf ''records request: %w'' [] err), s)
      | None \<Rightarrow>
          (case clientDo e s SearchHostOverride of
             (TransportError m, s') \<Rightarrow> (Inl (Errorf ''records response: %w'' [] (External m)), s')
           | (Response resp, s') \<Rightarrow>
               if StatusCode resp \<noteq> StatusOK
               then (Inl (Errorf ''status %v: %w'' [Str (Status resp)] ErrRequestFailed), s')
               else
                 (case marshalEndpoints e resp of
                    Inl err \<Rightarrow> (Inl (ErrorsJoin [ErrMarshalling, err]), s')
                  | Inr endpoints \<Rightarrow>
                      (Inr endpoints,
                       s'\<lparr>knownRecords := updateReadRecords (knownRecords s') endpoints\<rparr>))))"

definition ApplyChanges :: "env \<Rightarrow> state \<Rightarrow> Changes \<Rightarrow> error option \<times> state" where
  "ApplyChanges e s changes =
     (if \<not> HasChanges changes then (None, s)
      else
        (let s1 = s\<lparr>knownRecords := updateFromPlan (knownRecords s) changes\<rparr>
         in case deleteEndpoints e s1 (deletions changes) of
              (Some err, s2) \<Rightarrow> (Some (Errorf ''plan delete: %w'' [] err), s2)
            | (None, s2) \<Rightarrow>
                (case createEndpoints e s2 (creations changes) of
                   (Some err, s3) \<Rightarrow> (Some (Errorf ''plan create: %w'' [] err), s3)
                 | (None, s3) \<Rightarrow>
                     (case reconfigure e s3 of
                        (Some err, s4) \<Rightarrow>
                          (Some (Errorf ''apply changes reconfigure endpoint: %w'' [] err), s4)
                      | (None, s4) \<Rightarrow> (None, s4)))))"

section \<open>Auxiliary definitions for the statements\<close>

text \<open>The request could not be built, or sending it ended in a transport error: no
  response of the remote side was received.\<close>

definition noResponse :: "env \<Rightarrow> request list \<Rightarrow> request \<Rightarrow> bool" where
  "noResponse e hist req =
     (case NewRequest e req of
        Some m \<Rightarrow> True
      | None \<Rightarrow> (case Do e hist req of TransportError m \<Rightarrow> True | Response resp \<Rightarrow> False))"


text \<open>The error is, or wraps, an error made outside the package.\<close>

fun wrapsExternal :: "error \<Rightarrow> bool" where
  "wrapsExternal ErrRequestFailed = False"
| "wrapsExternal ErrMarshalling = False"
| "wrapsExternal (External m) = True"
| "wrapsExternal (Errorf f args err) = wrapsExternal err"
| "wrapsExternal (ErrorsJoin errs) = (\<exists>err \<in> set errs. wrapsExternal err)"

definition delRequest :: "Endpoint \<Rightarrow> request" where
  "delRequest ep = DelHostOverride (SetIdentifier ep)"

text \<open>The bodies of the create calls a list of records leads to, in order: the payloads
  of the records of an address kind.\<close>

definition createPayloads :: "heritages \<Rightarrow> Endpoint list \<Rightarrow> Record list" where
  "createPayloads h eps =
     concat (map (createRequestJSON h) (filter (\<lambda>ep. supportedType (RecordType ep)) eps))"

text \<open>
  A run that went from state \<open>s\<close> to state \<open>s'\<close> through the requests \<open>reqs\<close> and failed
  with \<open>err\<close> at the i-th of them: the requests before it were sent, the failing one was
  sent unless it could not be built, nothing was sent after it; the error is testable as
  \<open>ErrRequestFailed\<close> exactly when the remote side answered, and wraps an external
  error exactly when it did not.
\<close>

definition failedAt ::
  "env \<Rightarrow> state \<Rightarrow> state \<Rightarrow> request list \<Rightarrow> nat \<Rightarrow> error \<Rightarrow> bool" where
  "failedAt e s s' reqs i err =
     (i < length reqs \<and>
      sent s' = sent s @ take i reqs @ (if NewRequest e (reqs ! i) = None then [reqs ! i] else []) \<and>
      errorsIs err ErrRequestFailed = (\<not> noResponse e (sent s @ take i reqs) (reqs ! i)) \<and>
      wrapsExternal err = noResponse e (sent s @ take i reqs) (reqs ! i) \<and>
      \<not> errorsIs err ErrMarshalling)"

text \<open>The words of the specification for the two parts of a name: the hostname is the
  first dot-separated segment, the domain is what follows the first dot.\<close>

definition hostPart :: "string \<Rightarrow> string" where
  "hostPart name = takeWhile (\<lambda>x. x \<noteq> CHR ''.'') name"

definition domainPart :: "string \<Rightarrow> string" where
  "domainPart name = drop (Suc (length (hostPart name))) name"

text \<open>An ownership record: kind TXT, one target, and every other field at its zero
  value (no set-identifier, no TTL, nil labels, nil provider-specific properties).\<close>

definition ownershipRecord :: "string \<Rightarrow> string \<Rightarrow> Endpoint" where
  "ownershipRecord name v =
     \<lparr>DNSName = name, Targets = Some [v], RecordType = RecordTypeTXT, SetIdentifier = [],
      RecordTTL = 0, Labels = None, ProviderSpecific = None\<rparr>"

text \<open>The characters of a text that \<open>DecodeString\<close> accepts: the alphabet, the
  padding and the two line breaks. \<open>lineBreakFree\<close> is the text the decoder works on.
  A list of white-space sequences is harmless for such a text when each of them is a
  single line break or starts with a character the text cannot hold.\<close>

definition b64ok :: "char \<Rightarrow> bool" where
  "b64ok c = (c \<in> set encodeStd \<or> c = CHR ''='' \<or> c = CHR 0x0A \<or> c = CHR 0x0D)"

definition lineBreakFree :: "string \<Rightarrow> string" where
  "lineBreakFree s = filter (\<lambda>c. c \<noteq> CHR 0x0A \<and> c \<noteq> CHR 0x0D) s"

definition harmless :: "string list \<Rightarrow> bool" where
  "harmless seqs =
     (\<forall>w \<in> set seqs. w \<noteq> [] \<and> (w = [CHR 0x0A] \<or> w = [CHR 0x0D] \<or> \<not> b64ok (hd w)))"

section \<open>Test doubles\<close>

text \<open>
  A remote side that answers from a script, the way the repository's \<open>TestHandler\<close> does:
  the n-th request gets the n-th answer, and the connection fails when the script is used
  up. The JSON decoders of the double read the body as the \<open>result\<close> field itself, and
  know one row set, under the body \<open>rows\<close>.
\<close>

definition ok :: "string \<Rightarrow> http_result" where
  "ok body = Response \<lparr>StatusCode = 200, Status = ''200 OK'', Body = body, BodyErr = None\<rparr>"

definition badRequest :: http_result where
  "badRequest =
     Response \<lparr>StatusCode = 400, Status = ''400 Bad Request'', Body = [], BodyErr = None\<rparr>"

definition scripted :: "http_result list \<Rightarrow> request list \<Rightarrow> request \<Rightarrow> http_result" where
  "scripted answers hist req =
     (if length hist < length answers then answers ! length hist
      else TransportError ''connection refused'')"

definition fooRow :: Record where
  "fooRow = \<lparr>UUID = ''u1'', Hostname = ''foo'', Domain_f = ''example.domain'',
             Rr = ''A (Ipv4 Address)'', Server = ''10.0.0.4'', Enabled = ''1'',
             Description = ''Managed by K8s external-dns aGk=''\<rparr>"

definition plainRow :: Record where
  "plainRow = \<lparr>UUID = ''u2'', Hostname = ''bar'', Domain_f = ''example.domain'',
               Rr = ''AAAA (IPv6 Address)'', Server = ''fe80::1'', Enabled = ''1'',
               Description = []\<rparr>"

definition testEnv :: "http_result list \<Rightarrow> env" where
  "testEnv answers =
     \<lparr>NewRequest = (\<lambda>req. None),
      Do = scripted answers,
      UnmarshalSearchHostResp =
        (\<lambda>body. if body = ''rows'' then Inr [fooRow] else Inl ''unexpected end of JSON input''),
      UnmarshalOperationResponse = (\<lambda>body. (None, body))\<rparr>"

definition newState :: state where
  "newState = \<lparr>knownRecords = Map.empty, sent = []\<rparr>"

definition mkEndpoint :: "string \<Rightarrow> string \<Rightarrow> string \<Rightarrow> string \<Rightarrow> Endpoint" where
  "mkEndpoint name kind target uuid =
     \<lparr>DNSName = name, Targets = Some [target], RecordType = kind, SetIdentifier = uuid,
      RecordTTL = 0, Labels = None, ProviderSpecific = None\<rparr>"

text \<open>Change-sets and states for the examples. \<open>noChanges\<close> is \<open>&plan.Changes{}\<close>, all
  of whose slices are nil; \<open>emptyUpdateOld\<close> differs from it in an \<open>UpdateOld\<close> that is
  empty and not nil.\<close>

definition noChanges :: Changes where
  "noChanges = \<lparr>Create = None, UpdateOld = None, UpdateNew = None, Delete = None\<rparr>"

definition emptyUpdateOld :: Changes where
  "emptyUpdateOld = noChanges\<lparr>UpdateOld := Some []\<rparr>"





text \<open>An update that changes nothing: the two update lists hold the same record.\<close>

definition sameUpdate :: Changes where
  "sameUpdate =
     noChanges\<lparr>UpdateOld := Some [mkEndpoint ''update.this'' ''A'' ''4.3.2.1'' ''u3''],
               UpdateNew := Some [mkEndpoint ''update.this'' ''A'' ''4.3.2.1'' ''u3'']\<rparr>"

section \<open>Lemmas on the string functions\<close>

lemma HasPrefix_append: "HasPrefix (p @ rest) p"
  by (simp add: HasPrefix_def)

lemma HasPrefix_drop: "HasPrefix s p \<Longrightarrow> Replace1 s p [] = drop (length p) s"
  by (cases s) (auto simp add: HasPrefix_def)

lemma Replace1_prefix: "Replace1 (p @ rest) p [] = rest"
  using HasPrefix_drop [OF HasPrefix_append, of p rest] by simp

lemma Split_not_Nil: "Split s c \<noteq> []"
  by (induction s) (auto split: list.splits)

lemma Split_takeWhile: "Split s c = takeWhile (\<lambda>x. x \<noteq> c) s # (if c \<in> set s then Split (tl (dropWhile (\<lambda>x. x \<noteq> c) s)) c else [])"
proof (induction s)
  case Nil
  show ?case by simp
next
  case (Cons a s)
  show ?case
  proof (cases "a = c")
    case True
    then show ?thesis by simp
  next
    case False
    then show ?thesis using Cons by (auto split: list.splits)
  qed
qed

lemma Join_Cons: "Join (w # ws) sep = w @ (if ws = [] then [] else sep @ Join ws sep)"
  by (cases ws) simp_all

lemma Join_Split: "Join (Split s c) [c] = s"
proof (induction s)
  case Nil
  show ?case by simp
next
  case (Cons a s)
  show ?case
  proof (cases "a = c")
    case True
    then show ?thesis using Cons Split_not_Nil [of s c] by (simp add: Join_Cons)
  next
    case False
    obtain w ws where sp: "Split s c = w # ws"
      using Split_not_Nil [of s c] by (cases "Split s c") auto
    with Cons have "w @ (if ws = [] then [] else [c] @ Join ws [c]) = s"
      by (simp add: Join_Cons)
    with False sp show ?thesis by (simp add: Join_Cons)
  qed
qed

lemma Split_no_sep: "c \<notin> set w \<Longrightarrow> Split (w @ c # rest) c = w # Split rest c"
  by (induction w) (auto)

lemma Split_no_sep_all: "c \<notin> set w \<Longrightarrow> Split w c = [w]"
  by (induction w) (auto)

lemma Split_first: "(case Split s c of [] \<Rightarrow> [] | w # ws \<Rightarrow> w) = takeWhile (\<lambda>x. x \<noteq> c) s"
  by (subst Split_takeWhile) simp

lemma Split_rest: "Join (drop 1 (Split s c)) [c] = drop (Suc (length (takeWhile (\<lambda>x. x \<noteq> c) s))) s"
proof (cases "c \<in> set s")
  case True
  have "Join (drop 1 (Split s c)) [c] = Join (Split (tl (dropWhile (\<lambda>x. x \<noteq> c) s)) c) [c]"
    using True by (subst Split_takeWhile) simp
  also have "\<dots> = tl (dropWhile (\<lambda>x. x \<noteq> c) s)" by (rule Join_Split)
  also have "\<dots> = drop (Suc (length (takeWhile (\<lambda>x. x \<noteq> c) s))) s"
    by (simp add: dropWhile_eq_drop drop_Suc tl_drop)
  finally show ?thesis .
next
  case False
  then have t: "length (takeWhile (\<lambda>x. x \<noteq> c) s) = length s" by (induction s) auto
  have "Join (drop 1 (Split s c)) [c] = []"
    using False by (subst Split_takeWhile) simp
  with t show ?thesis by simp
qed

lemma hostPart_rebuilt: "hostPart (hostPart n @ ''.'' @ d) = hostPart n"
proof -
  have "\<forall>x \<in> set (hostPart n). x \<noteq> CHR ''.''"
    by (auto simp add: hostPart_def dest: set_takeWhileD)
  then have "takeWhile (\<lambda>x. x \<noteq> CHR ''.'') (hostPart n @ CHR ''.'' # d) = hostPart n"
    by (simp add: takeWhile_append2)
  then show ?thesis by (simp add: hostPart_def)
qed

lemma domainPart_rebuilt: "domainPart (hostPart n @ ''.'' @ d) = d"
proof -
  have "domainPart (hostPart n @ ''.'' @ d) = drop (Suc (length (hostPart n))) (hostPart n @ ''.'' @ d)"
    unfolding domainPart_def by (simp only: hostPart_rebuilt)
  then show ?thesis by simp
qed

lemma name_rebuilt: "CHR ''.'' \<in> set n \<Longrightarrow> hostPart n @ ''.'' @ domainPart n = n"
proof -
  assume m: "CHR ''.'' \<in> set n"
  let ?P = "\<lambda>x. x \<noteq> CHR ''.''"
  from m have ne: "dropWhile ?P n \<noteq> []" by (simp add: dropWhile_eq_Nil_conv) 
  then have "hd (dropWhile ?P n) = CHR ''.''" using hd_dropWhile [of ?P n] by simp
  with ne have "dropWhile ?P n = CHR ''.'' # tl (dropWhile ?P n)" by (cases "dropWhile ?P n") auto
  moreover have "domainPart n = tl (dropWhile ?P n)"
    by (simp add: domainPart_def hostPart_def dropWhile_eq_drop drop_Suc tl_drop)
  ultimately have "hostPart n @ ''.'' @ domainPart n = takeWhile ?P n @ dropWhile ?P n"
    by (simp add: hostPart_def)
  then show ?thesis by simp
qed

section \<open>Lemmas on the remote calls\<close>

lemma checkResponse_err:
  "checkResponse e body want = Some err \<Longrightarrow>
     errorsIs err ErrRequestFailed \<and> \<not> wrapsExternal err \<and> \<not> errorsIs err ErrMarshalling"
  by (auto simp add: checkResponse_def split: prod.splits if_splits)

lemma createTarget_state:
  "createTarget e s d ep = (r, s') \<Longrightarrow>
     knownRecords s' = knownRecords s \<and>
     sent s' = sent s @ (if NewRequest e (AddHostOverride d) = None then [AddHostOverride d] else []) \<and>
     (NewRequest e (AddHostOverride d) \<noteq> None \<longrightarrow> r \<noteq> None)"
  by (auto simp add: createTarget_def postAPIRequest_def apiRequest_def clientDo_def
           split: option.splits http_result.splits if_splits)

lemma createTarget_err:
  "createTarget e s d ep = (Some err, s') \<Longrightarrow>
     errorsIs err ErrRequestFailed = (\<not> noResponse e (sent s) (AddHostOverride d)) \<and>
     wrapsExternal err = noResponse e (sent s) (AddHostOverride d) \<and>
     \<not> errorsIs err ErrMarshalling"
  by (auto simp add: createTarget_def postAPIRequest_def apiRequest_def clientDo_def noResponse_def
           dest: checkResponse_err
           split: option.splits http_result.splits if_splits)


lemma deleteEndpoint_err:
  "deleteEndpoint e s ep = (Some err, s') \<Longrightarrow>
     errorsIs err ErrRequestFailed = (\<not> noResponse e (sent s) (delRequest ep)) \<and>
     wrapsExternal err = noResponse e (sent s) (delRequest ep) \<and>
     \<not> errorsIs err ErrMarshalling"
  by (auto simp add: deleteEndpoint_def apiRequest_def clientDo_def noResponse_def delRequest_def
           dest: checkResponse_err
           split: option.splits http_result.splits if_splits)

lemma reconfigure_state:
  "reconfigure e s = (r, s') \<Longrightarrow>
     knownRecords s' = knownRecords s \<and>
     sent s' = sent s @ (if NewRequest e Reconfigure = None then [Reconfigure] else []) \<and>
     (NewRequest e Reconfigure \<noteq> None \<longrightarrow> r \<noteq> None)"
  by (auto simp add: reconfigure_def postAPIRequest_def apiRequest_def clientDo_def
           split: option.splits http_result.splits if_splits)

lemma reconfigure_err:
  "reconfigure e s = (Some err, s') \<Longrightarrow>
     errorsIs err ErrRequestFailed = (\<not> noResponse e (sent s) Reconfigure) \<and>
     wrapsExternal err = noResponse e (sent s) Reconfigure \<and>
     \<not> errorsIs err ErrMarshalling"
  by (auto simp add: reconfigure_def postAPIRequest_def apiRequest_def clientDo_def noResponse_def
           dest: checkResponse_err
           split: option.splits http_result.splits if_splits)

lemma failedAt_0:
  assumes "sent s' = sent s @ (if NewRequest e req = None then [req] else [])"
    and "errorsIs err ErrRequestFailed = (\<not> noResponse e (sent s) req)"
    and "wrapsExternal err = noResponse e (sent s) req"
    and "\<not> errorsIs err ErrMarshalling"
  shows "failedAt e s s' (req # reqs) 0 err"
  using assms by (simp add: failedAt_def)

lemma failedAt_Suc:
  assumes "sent s1 = sent s @ [req]" and "failedAt e s1 s' reqs i err"
  shows "failedAt e s s' (req # reqs) (Suc i) err"
  using assms by (simp add: failedAt_def)

lemma failedAt_append:
  assumes "sent s1 = sent s @ pre" and "failedAt e s1 s' reqs i err"
  shows "failedAt e s s' (pre @ reqs) (length pre + i) err"
  using assms by (simp add: failedAt_def nth_append)

lemma failedAt_prefix:
  assumes "failedAt e s s' reqs i err"
  shows "failedAt e s s' (reqs @ post) i err"
  using assms by (simp add: failedAt_def nth_append)

lemma failedAt_wrap:
  "failedAt e s s' reqs i err \<Longrightarrow> failedAt e s s' reqs i (Errorf f args err)"
  by (simp add: failedAt_def)



lemma failedAt_sent:
  "failedAt e s s' reqs i err \<Longrightarrow> \<exists>n\<le>length reqs. sent s' = sent s @ take n reqs"
proof -
  assume f: "failedAt e s s' reqs i err"
  then have i: "i < length reqs" by (simp add: failedAt_def)
  show ?thesis
  proof (cases "NewRequest e (reqs ! i) = None")
    case True
    with f i have "sent s' = sent s @ take (Suc i) reqs"
      by (simp add: failedAt_def take_Suc_conv_app_nth)
    with i show ?thesis by (intro exI [of _ "Suc i"]) simp
  next
    case False
    with f have "sent s' = sent s @ take i reqs" by (simp add: failedAt_def)
    with i show ?thesis by (intro exI [of _ i]) simp
  qed
qed

lemma createTargets_ok:
  "createTargets e s ds ep = (None, s') \<Longrightarrow>
     knownRecords s' = knownRecords s \<and> sent s' = sent s @ map AddHostOverride ds"
proof (induction ds arbitrary: s)
  case Nil
  then show ?case by simp
next
  case (Cons d ds)
  obtain r s1 where c: "createTarget e s d ep = (r, s1)" by (cases "createTarget e s d ep")
  with Cons.prems have r: "r = None" and rest: "createTargets e s1 ds ep = (None, s')"
    by (auto split: option.splits)
  from createTarget_state [OF c] r
  have s1: "knownRecords s1 = knownRecords s" "sent s1 = sent s @ [AddHostOverride d]"
    by (auto split: if_splits)
  from Cons.IH [OF rest] s1 show ?case by simp
qed

lemma createTargets_fail:
  "createTargets e s ds ep = (Some err, s') \<Longrightarrow>
     knownRecords s' = knownRecords s \<and>
     (\<exists>i. failedAt e s s' (map AddHostOverride ds) i err)"
proof (induction ds arbitrary: s)
  case Nil
  then show ?case by simp
next
  case (Cons d ds)
  obtain r s1 where c: "createTarget e s d ep = (r, s1)" by (cases "createTarget e s d ep")
  show ?case
  proof (cases r)
    case None
    with c Cons.prems have rest: "createTargets e s1 ds ep = (Some err, s')" by simp
    from createTarget_state [OF c] None
    have s1: "knownRecords s1 = knownRecords s" "sent s1 = sent s @ [AddHostOverride d]"
      by (auto split: if_splits)
    from Cons.IH [OF rest] obtain i where
      i: "failedAt e s1 s' (map AddHostOverride ds) i err" and k: "knownRecords s' = knownRecords s1"
      by blast
    from failedAt_Suc [OF s1(2) i]
    have "failedAt e s s' (map AddHostOverride (d # ds)) (Suc i) err" by simp
    with k s1 show ?thesis by auto
  next
    case (Some err0)
    with c Cons.prems have eq: "err = err0" "s' = s1" by simp_all
    from c Some have c': "createTarget e s d ep = (Some err0, s1)" by simp
    from createTarget_state [OF c'] createTarget_err [OF c']
    have "failedAt e s s1 (AddHostOverride d # map AddHostOverride ds) 0 err0"
      by (intro failedAt_0) simp_all
    with eq createTarget_state [OF c'] show ?thesis by auto
  qed
qed

lemma createPayloads_Cons:
  "createPayloads h (ep # eps) =
     (if supportedType (RecordType ep) then createRequestJSON h ep else []) @ createPayloads h eps"
  by (simp add: createPayloads_def)

lemma createEndpoints_ok:
  "createEndpoints e s eps = (None, s') \<Longrightarrow>
     knownRecords s' = knownRecords s \<and>
     sent s' = sent s @ map AddHostOverride (createPayloads (knownRecords s) eps)"
proof (induction eps arbitrary: s)
  case Nil
  then show ?case by (simp add: createPayloads_def)
next
  case (Cons ep eps)
  show ?case
  proof (cases "supportedType (RecordType ep)")
    case False
    with Cons.prems have "createEndpoints e s eps = (None, s')" by simp
    from Cons.IH [OF this] False show ?thesis by (simp add: createPayloads_Cons)
  next
    case True
    obtain r s1 where c: "createEndpoint e s ep = (r, s1)" by (cases "createEndpoint e s ep")
    with True Cons.prems have r: "r = None" and rest: "createEndpoints e s1 eps = (None, s')"
      by (auto split: option.splits)
    from c r have "createTargets e s (createRequestJSON (knownRecords s) ep) ep = (None, s1)"
      by (simp add: createEndpoint_def)
    from createTargets_ok [OF this]
    have s1: "knownRecords s1 = knownRecords s"
      "sent s1 = sent s @ map AddHostOverride (createRequestJSON (knownRecords s) ep)"
      by simp_all
    from Cons.IH [OF rest] s1 True show ?thesis by (simp add: createPayloads_Cons)
  qed
qed

lemma createEndpoints_fail:
  "createEndpoints e s eps = (Some err, s') \<Longrightarrow>
     knownRecords s' = knownRecords s \<and>
     (\<exists>i err0. err = Errorf ''create endpoint: %w'' [] err0 \<and>
        failedAt e s s' (map AddHostOverride (createPayloads (knownRecords s) eps)) i err0)"
proof (induction eps arbitrary: s)
  case Nil
  then show ?case by simp
next
  case (Cons ep eps)
  show ?case
  proof (cases "supportedType (RecordType ep)")
    case False
    with Cons.prems have "createEndpoints e s eps = (Some err, s')" by simp
    from Cons.IH [OF this] False show ?thesis by (simp add: createPayloads_Cons)
  next
    case True
    let ?ds = "createRequestJSON (knownRecords s) ep"
    obtain r s1 where c: "createEndpoint e s ep = (r, s1)" by (cases "createEndpoint e s ep")
    show ?thesis
    proof (cases r)
      case None
      with c True Cons.prems have rest: "createEndpoints e s1 eps = (Some err, s')" by simp
      from c None have "createTargets e s ?ds ep = (None, s1)"
        by (simp add: createEndpoint_def)
      from createTargets_ok [OF this]
      have s1: "knownRecords s1 = knownRecords s" "sent s1 = sent s @ map AddHostOverride ?ds"
        by simp_all
      from Cons.IH [OF rest] obtain i err0 where
        i: "err = Errorf ''create endpoint: %w'' [] err0"
           "failedAt e s1 s' (map AddHostOverride (createPayloads (knownRecords s1) eps)) i err0"
        and k: "knownRecords s' = knownRecords s1"
        by blast
      from failedAt_append [OF s1(2) i(2)] s1(1) True
      have "failedAt e s s' (map AddHostOverride (createPayloads (knownRecords s) (ep # eps)))
              (length (map AddHostOverride ?ds) + i) err0"
        by (simp add: createPayloads_Cons)
      with i(1) k s1(1) show ?thesis by auto
    next
      case (Some err0)
      with c True Cons.prems have eq: "err = Errorf ''create endpoint: %w'' [] err0" "s' = s1"
        by simp_all
      from c Some have "createTargets e s ?ds ep = (Some err0, s1)"
        by (simp add: createEndpoint_def)
      from createTargets_fail [OF this] obtain i where
        i: "failedAt e s s1 (map AddHostOverride ?ds) i err0" and k: "knownRecords s1 = knownRecords s"
        by blast
      from failedAt_prefix [OF i, of "map AddHostOverride (createPayloads (knownRecords s) eps)"] True
      have "failedAt e s s1 (map AddHostOverride (createPayloads (knownRecords s) (ep # eps))) i err0"
        by (simp add: createPayloads_Cons)
      with eq k show ?thesis by auto
    qed
  qed
qed

lemma endpointsFromBase64Description_eq:
  "endpointsFromBase64Description dnsName description =
     (if HasPrefix description DescriptionPrefix
      then map_option (\<lambda>decoded. [ownershipRecord dnsName decoded,
                                   ownershipRecord (''a-'' @ dnsName) decoded])
             (DecodeString (TrimSpace (drop (length DescriptionPrefix) description)))
      else None)"
  by (auto simp add: endpointsFromBase64Description_def HasPrefix_drop ownershipRecord_def
        NewTargets_def Let_def split: option.splits)

lemma createEndpoints_sent:
  assumes "createEndpoints e s eps = (r, s')"
  shows "\<exists>n\<le>length (createPayloads (knownRecords s) eps).
           sent s' = sent s @ map AddHostOverride (take n (createPayloads (knownRecords s) eps))"
proof (cases r)
  case None
  with assms createEndpoints_ok [of e s eps s']
  have "sent s' = sent s @ map AddHostOverride (createPayloads (knownRecords s) eps)" by simp
  then show ?thesis
    by (intro exI [of _ "length (createPayloads (knownRecords s) eps)"]) simp
next
  case (Some err)
  with assms createEndpoints_fail [of e s eps err s'] obtain i err0 where
    "failedAt e s s' (map AddHostOverride (createPayloads (knownRecords s) eps)) i err0"
    by auto
  from failedAt_sent [OF this] show ?thesis by (auto simp add: take_map)
qed


lemma createPayloads_set:
  "rec \<in> set (createPayloads h eps) \<longleftrightarrow>
     (\<exists>ep \<in> set eps. supportedType (RecordType ep) \<and> rec \<in> set (createRequestJSON h ep))"
  by (auto simp add: createPayloads_def)

lemma createRequestJSON_fields:
  "rec \<in> set (createRequestJSON h ep) \<Longrightarrow>
     Rr rec = RecordType ep \<and> Description rec = createDescription h (DNSName ep) \<and>
     Hostname rec = hostPart (DNSName ep) \<and> Domain_f rec = domainPart (DNSName ep) \<and>
     UUID rec = [] \<and> Enabled rec = ''1'' \<and> Server rec \<in> set (elems (Targets ep))"
  by (auto simp add: createRequestJSON_def Let_def Split_first Split_rest [unfolded One_nat_def] hostPart_def
        domainPart_def)



section \<open>Lemmas on decoding and on the examples\<close>

lemma ToEndpoints_concat: "ToEndpoints rows = concat (map (\<lambda>row. ToEndpoints [row]) rows)"
  by (induction rows) simp_all

lemma marshalledEndpoint_eq:
  "marshalledEndpoint row =
     \<lparr>DNSName = Hostname row @ ''.'' @ Domain_f row,
      Targets = Some [Server row],
      RecordType = takeWhile (\<lambda>x. x \<noteq> CHR '' '') (Rr row),
      SetIdentifier = UUID row,
      RecordTTL = 0,
      Labels = (if Description row \<noteq> [] then Some [''description'' \<mapsto> Description row]
                else None),
      ProviderSpecific = None\<rparr>"
  by (simp add: marshalledEndpoint_def NewTargets_def Split_first)

lemma DescriptionPrefix_not_Nil: "DescriptionPrefix \<noteq> []"
  by (simp add: DescriptionPrefix_def)

lemma HasPrefix_Nil: "\<not> HasPrefix [] DescriptionPrefix"
  by (simp add: HasPrefix_def DescriptionPrefix_def)

lemma HasPrefix_iff: "HasPrefix s p = (\<exists>rest. s = p @ rest)"
proof
  assume "HasPrefix s p"
  then have "s = p @ drop (length p) s"
    by (metis HasPrefix_def append_take_drop_id)
  then show "\<exists>rest. s = p @ rest" ..
next
  assume "\<exists>rest. s = p @ rest"
  then show "HasPrefix s p" by (auto simp add: HasPrefix_append)
qed

lemma first_token_address_kind:
  "supportedType k \<Longrightarrow> takeWhile (\<lambda>x. x \<noteq> CHR '' '') k = k"
  by (auto simp add: supportedType_def RecordTypeA_def RecordTypeAAAA_def)

lemma TrimSpace_example: "TrimSpace '' aGk='' = ''aGk=''"
  by code_simp

lemma DecodeString_example: "DecodeString ''aGk='' = Some ''hi''"
  by code_simp

lemma TrimSpace_unpadded: "TrimSpace ''aGk='' = ''aGk=''"
  by code_simp


section \<open>Lemmas on trimming and base64\<close>

lemma decodeMap_Some: "decodeMap c = Some n \<Longrightarrow> c \<in> set encodeStd"
  unfolding decodeMap_def by (auto dest!: map_of_SomeD set_zip_leftD)

lemma decodeQuanta_chars:
  "decodeQuanta s = Some v \<Longrightarrow> \<forall>c \<in> set s. c \<in> set encodeStd \<or> c = CHR ''=''"
proof (induction s arbitrary: v rule: decodeQuanta.induct)
  case 1
  then show ?case by simp
next
  case (2 a b c d rest)
  from "2.prems" obtain x y where xy: "decodeMap a = Some x" "decodeMap b = Some y"
    by (auto split: option.splits)
  show ?case
  proof (cases "c = CHR ''=''")
    case True
    with "2.prems" xy have "d = CHR ''=''" "rest = []" by (auto split: if_splits)
    with True xy show ?thesis by (auto dest: decodeMap_Some)
  next
    case False
    with "2.prems" xy obtain z where z: "decodeMap c = Some z" by (auto split: option.splits)
    show ?thesis
    proof (cases "d = CHR ''=''")
      case True
      with "2.prems" xy False z have "rest = []" by (auto split: if_splits)
      with True xy z show ?thesis by (auto dest: decodeMap_Some)
    next
      case dne: False
      with "2.prems" xy False z obtain w r where w: "decodeMap d = Some w"
        and r: "decodeQuanta rest = Some r"
        by (auto split: option.splits)
      from "2.IH" [OF refl xy(1) xy(2) False z dne w r]
      have "\<forall>c \<in> set rest. c \<in> set encodeStd \<or> c = CHR ''=''" .
      with xy z w show ?thesis by (auto dest: decodeMap_Some)
    qed
  qed
qed simp_all

lemma DecodeString_chars: "DecodeString s = Some v \<Longrightarrow> \<forall>c \<in> set s. b64ok c"
proof
  fix c
  assume d: "DecodeString s = Some v" and c: "c \<in> set s"
  show "b64ok c"
  proof (cases "c = CHR 0x0A \<or> c = CHR 0x0D")
    case True
    then show ?thesis by (auto simp add: b64ok_def)
  next
    case False
    with c have "c \<in> set (filter (\<lambda>c. c \<noteq> CHR 0x0A \<and> c \<noteq> CHR 0x0D) s)" by simp
    with d decodeQuanta_chars show ?thesis
      unfolding DecodeString_def b64ok_def by blast
  qed
qed

lemma leadingSpace_Some:
  "leadingSpace seqs s = Some w \<Longrightarrow> w \<in> set seqs \<and> (\<exists>d. s = w @ d \<and> drop (length w) s = d)"
proof -
  assume "leadingSpace seqs s = Some w"
  then have w: "w \<in> set seqs" and p: "HasPrefix s w"
    by (auto simp add: leadingSpace_def find_Some_iff)
  from p have "take (length w) s = w" by (simp add: HasPrefix_def)
  then have "s = w @ drop (length w) s" by (metis append_take_drop_id)
  with w show ?thesis by blast
qed

lemma TrimLeft_step:
  assumes h: "harmless seqs" and l: "leadingSpace seqs s = Some w" and ok: "\<forall>c \<in> set s. b64ok c"
  shows "w \<noteq> [] \<and> lineBreakFree (drop (length w) s) = lineBreakFree s \<and>
         TrimLeft seqs s = TrimLeft seqs (drop (length w) s)"
proof -
  from leadingSpace_Some [OF l] obtain d where
    w: "w \<in> set seqs" and s: "s = w @ d" and d: "drop (length w) s = d"
    by blast
  from h w have wne: "w \<noteq> []"
    and wk: "w = [CHR 0x0A] \<or> w = [CHR 0x0D] \<or> \<not> b64ok (hd w)"
    by (simp_all add: harmless_def)
  from wne have "hd w \<in> set w" by simp
  with ok have "b64ok (hd w)" unfolding s by simp
  with wk have "w = [CHR 0x0A] \<or> w = [CHR 0x0D]" by simp
  then have "lineBreakFree w = []" by (auto simp add: lineBreakFree_def)
  then have a: "lineBreakFree (drop (length w) s) = lineBreakFree s"
    unfolding d unfolding s by (simp add: lineBreakFree_def)
  have "TrimLeft seqs s = (if w = [] then s else TrimLeft seqs (drop (length w) s))"
    by (subst TrimLeft.simps) (simp only: l option.case)
  with wne have b: "TrimLeft seqs s = TrimLeft seqs (drop (length w) s)" by simp
  from wne a b show ?thesis by simp
qed

lemma harmless_spaceSeqs: "harmless spaceSeqs"
  by (simp add: harmless_def spaceSeqs_def asciiSpace_def unicodeSpace_def b64ok_def encodeStd_def)

lemma harmless_rev_spaceSeqs: "harmless (map rev spaceSeqs)"
  by (simp add: harmless_def spaceSeqs_def asciiSpace_def unicodeSpace_def b64ok_def encodeStd_def)

lemma TrimLeft_b64:
  "harmless seqs \<Longrightarrow> \<forall>c \<in> set s. b64ok c \<Longrightarrow>
     lineBreakFree (TrimLeft seqs s) = lineBreakFree s \<and> set (TrimLeft seqs s) \<subseteq> set s"
proof (induction seqs s rule: TrimLeft.induct)
  case (1 seqs s)
  note h = "1.prems"(1) and oks = "1.prems"(2)
  show ?case
  proof (cases "leadingSpace seqs s")
    case None
    have "TrimLeft seqs s = s"
      by (subst TrimLeft.simps) (simp only: None option.case)
    then show ?thesis by simp
  next
    case (Some w)
    from TrimLeft_step [OF h Some oks]
    have wne: "w \<noteq> []" and a: "lineBreakFree (drop (length w) s) = lineBreakFree s"
      and b: "TrimLeft seqs s = TrimLeft seqs (drop (length w) s)"
      by simp_all
    have sub: "set (drop (length w) s) \<subseteq> set s" by (rule set_drop_subset)
    with oks have ok: "\<forall>c \<in> set (drop (length w) s). b64ok c" by auto
    from "1.IH" [OF Some wne h ok]
    have "lineBreakFree (TrimLeft seqs (drop (length w) s)) = lineBreakFree (drop (length w) s)"
      and "set (TrimLeft seqs (drop (length w) s)) \<subseteq> set (drop (length w) s)"
      by simp_all
    with a sub show ?thesis unfolding b by auto
  qed
qed

lemma lineBreakFree_rev: "lineBreakFree (rev s) = rev (lineBreakFree s)"
  by (simp add: lineBreakFree_def rev_filter)

lemma DecodeString_TrimSpace:
  assumes "DecodeString b = Some v"
  shows "DecodeString (TrimSpace b) = Some v"
proof -
  from DecodeString_chars [OF assms] have ok: "\<forall>c \<in> set b. b64ok c" .
  let ?t1 = "TrimLeft spaceSeqs b"
  let ?t2 = "TrimLeft (map rev spaceSeqs) (rev ?t1)"
  from TrimLeft_b64 [OF harmless_spaceSeqs ok]
  have t1: "lineBreakFree ?t1 = lineBreakFree b" "set ?t1 \<subseteq> set b" by simp_all
  with ok have "\<forall>c \<in> set (rev ?t1). b64ok c" by auto
  from TrimLeft_b64 [OF harmless_rev_spaceSeqs this]
  have t2: "lineBreakFree ?t2 = lineBreakFree (rev ?t1)" by simp
  have "lineBreakFree (TrimSpace b) = lineBreakFree (rev ?t2)"
    by (simp only: TrimSpace_def)
  also have "\<dots> = rev (lineBreakFree ?t2)" by (rule lineBreakFree_rev)
  also have "\<dots> = rev (lineBreakFree (rev ?t1))" by (simp only: t2)
  also have "\<dots> = lineBreakFree ?t1" by (simp only: lineBreakFree_rev rev_rev_ident)
  also have "\<dots> = lineBreakFree b" by (rule t1(1))
  finally have "lineBreakFree (TrimSpace b) = lineBreakFree b" .
  with assms show ?thesis by (simp only: DecodeString_def lineBreakFree_def)
qed

lemma TrimSpace_leading_space: "TrimSpace (CHR '' '' # b) = TrimSpace b"
proof -
  have "leadingSpace spaceSeqs (CHR '' '' # b) = Some [CHR '' '']"
    by (simp add: leadingSpace_def spaceSeqs_def asciiSpace_def HasPrefix_def)
  then have "TrimLeft spaceSeqs (CHR '' '' # b) = TrimLeft spaceSeqs b"
    by (subst TrimLeft.simps) simp
  then show ?thesis by (simp add: TrimSpace_def)
qed

lemma DecodeString_framed:
  assumes "DecodeString b = Some v"
  shows "DecodeString (TrimSpace ('' '' @ b)) = Some v"
proof -
  have "TrimSpace ('' '' @ b) = TrimSpace b" by (simp add: TrimSpace_leading_space)
  with DecodeString_TrimSpace [OF assms] show ?thesis by simp
qed

section \<open>Lemmas on the first failing call\<close>

lemma checkResponse_eq:
  "checkResponse e body want =
     (if fst (UnmarshalOperationResponse e body) = None \<and>
         snd (UnmarshalOperationResponse e body) = want
      then None
      else Some (Errorf ''response %q: %w'' [Str (snd (UnmarshalOperationResponse e body))]
                   ErrRequestFailed))"
  by (auto simp add: checkResponse_def split: prod.splits)










section \<open>Lemmas on applying a change-set\<close>

lemma ApplyChanges_unchanged: "\<not> HasChanges c \<Longrightarrow> ApplyChanges e s c = (None, s)"
  by (simp add: ApplyChanges_def)

lemma ApplyChanges_only_reconfigure:
  assumes hc: "HasChanges c" and d: "deletions c = []" and n: "creations c = []"
  shows "fst (ApplyChanges e s c) =
           map_option (Errorf ''apply changes reconfigure endpoint: %w'' []) (fst (reconfigure e s)) \<and>
         sent (snd (ApplyChanges e s c)) =
           sent s @ (if NewRequest e Reconfigure = None then [Reconfigure] else []) \<and>
         knownRecords (snd (ApplyChanges e s c)) = updateFromPlan (knownRecords s) c"
proof -
  let ?s1 = "s\<lparr>knownRecords := updateFromPlan (knownRecords s) c\<rparr>"
  obtain r s4 where rf: "reconfigure e ?s1 = (r, s4)" by (cases "reconfigure e ?s1")
  have same: "fst (reconfigure e ?s1) = fst (reconfigure e s)"
    by (simp add: reconfigure_def postAPIRequest_def apiRequest_def clientDo_def
          split: option.splits http_result.splits)
  from hc d n rf have a: "ApplyChanges e s c =
      (map_option (Errorf ''apply changes reconfigure endpoint: %w'' []) r, s4)"
    by (cases r) (simp_all add: ApplyChanges_def)
  from reconfigure_state [OF rf]
  have "sent s4 = sent s @ (if NewRequest e Reconfigure = None then [Reconfigure] else [])"
    and "knownRecords s4 = updateFromPlan (knownRecords s) c"
    by simp_all
  with a rf same show ?thesis by simp
qed


lemma reconfigure_example: "fst (reconfigure (testEnv [ok []]) newState) = None"
  by code_simp

lemma sent_newState: "sent newState = []"
  by (simp add: newState_def)









section \<open>Lemmas on the outcome of a single call\<close>

lemma createTarget_outcome:
  "(\<forall>m. NewRequest e (AddHostOverride d) = Some m \<longrightarrow>
      fst (createTarget e s d ep) =
        Some (Errorf ''create endpoint request: %w'' []
                (Errorf ''create request: %w'' [] (External m)))) \<and>
   (NewRequest e (AddHostOverride d) = None \<longrightarrow>
      (\<forall>m. Do e (sent s) (AddHostOverride d) = TransportError m \<longrightarrow>
         fst (createTarget e s d ep) = Some (Errorf ''create http do: %w'' [] (External m))) \<and>
      (\<forall>resp. Do e (sent s) (AddHostOverride d) = Response resp \<and> StatusCode resp \<noteq> StatusOK \<longrightarrow>
         fst (createTarget e s d ep) =
           Some (Errorf ''response status: %v: %w'' [Num (StatusCode resp)] ErrRequestFailed)) \<and>
      (\<forall>resp. Do e (sent s) (AddHostOverride d) = Response resp \<and> StatusCode resp = StatusOK \<longrightarrow>
         fst (createTarget e s d ep) =
           (if fst (UnmarshalOperationResponse e (Body resp)) = None \<and>
               snd (UnmarshalOperationResponse e (Body resp)) = CreateOpSuccessResponse
            then None
            else Some (Errorf ''response %q: %w''
                         [Str (snd (UnmarshalOperationResponse e (Body resp)))]
                         ErrRequestFailed)))) \<and>
   (\<forall>err. fst (createTarget e s d ep) = Some err \<longrightarrow>
      errorsIs err ErrRequestFailed = (\<not> noResponse e (sent s) (AddHostOverride d)) \<and>
      wrapsExternal err = noResponse e (sent s) (AddHostOverride d))"
proof (intro conjI allI impI)
  fix err
  assume a: "fst (createTarget e s d ep) = Some err"
  then obtain s' where "createTarget e s d ep = (Some err, s')"
    by (cases "createTarget e s d ep") auto
  from createTarget_err [OF this]
  show "errorsIs err ErrRequestFailed = (\<not> noResponse e (sent s) (AddHostOverride d))"
    and "wrapsExternal err = noResponse e (sent s) (AddHostOverride d)"
    by simp_all
qed (auto simp add: createTarget_def postAPIRequest_def apiRequest_def clientDo_def
       responseBody_def checkResponse_eq)

lemma deleteEndpoint_outcome:
  "(\<forall>m. NewRequest e (delRequest ep) = Some m \<longrightarrow>
      fst (deleteEndpoint e s ep) =
        Some (Errorf ''delete request: %w'' []
                (Errorf ''create request: %w'' [] (External m)))) \<and>
   (NewRequest e (delRequest ep) = None \<longrightarrow>
      (\<forall>m. Do e (sent s) (delRequest ep) = TransportError m \<longrightarrow>
         fst (deleteEndpoint e s ep) = Some (Errorf ''delete http do: %w'' [] (External m))) \<and>
      (\<forall>resp. Do e (sent s) (delRequest ep) = Response resp \<and> StatusCode resp \<noteq> StatusOK \<longrightarrow>
         fst (deleteEndpoint e s ep) =
           Some (Errorf ''response status: %v: %w'' [Num (StatusCode resp)] ErrRequestFailed)) \<and>
      (\<forall>resp. Do e (sent s) (delRequest ep) = Response resp \<and> StatusCode resp = StatusOK \<longrightarrow>
         fst (deleteEndpoint e s ep) =
           (if fst (UnmarshalOperationResponse e (Body resp)) = None \<and>
               snd (UnmarshalOperationResponse e (Body resp)) = DeleteOpSuccessResponse
            then None
            else Some (Errorf ''response %q: %w''
                         [Str (snd (UnmarshalOperationResponse e (Body resp)))]
                         ErrRequestFailed)))) \<and>
   (\<forall>err. fst (deleteEndpoint e s ep) = Some err \<longrightarrow>
      errorsIs err ErrRequestFailed = (\<not> noResponse e (sent s) (delRequest ep)) \<and>
      wrapsExternal err = noResponse e (sent s) (delRequest ep))"
proof (intro conjI allI impI)
  fix err
  assume a: "fst (deleteEndpoint e s ep) = Some err"
  then obtain s' where "deleteEndpoint e s ep = (Some err, s')"
    by (cases "deleteEndpoint e s ep") auto
  from deleteEndpoint_err [OF this]
  show "errorsIs err ErrRequestFailed = (\<not> noResponse e (sent s) (delRequest ep))"
    and "wrapsExternal err = noResponse e (sent s) (delRequest ep)"
    by simp_all
qed (auto simp add: deleteEndpoint_def delRequest_def apiRequest_def clientDo_def
       responseBody_def checkResponse_eq)

lemma reconfigure_outcome:
  "(\<forall>m. NewRequest e Reconfigure = Some m \<longrightarrow>
      fst (reconfigure e s) =
        Some (Errorf ''reconfigure request create: %w'' []
                (Errorf ''create request: %w'' [] (External m)))) \<and>
   (NewRequest e Reconfigure = None \<longrightarrow>
      (\<forall>m. Do e (sent s) Reconfigure = TransportError m \<longrightarrow>
         fst (reconfigure e s) = Some (Errorf ''reconfigure: %w'' [] (External m))) \<and>
      (\<forall>resp. Do e (sent s) Reconfigure = Response resp \<and> StatusCode resp \<noteq> StatusOK \<longrightarrow>
         fst (reconfigure e s) =
           Some (Errorf ''response status: %v: %w'' [Num (StatusCode resp)] ErrRequestFailed)) \<and>
      (\<forall>resp. Do e (sent s) Reconfigure = Response resp \<and> StatusCode resp = StatusOK \<longrightarrow>
         fst (reconfigure e s) =
           (if fst (UnmarshalOperationResponse e (Body resp)) = None \<and>
               snd (UnmarshalOperationResponse e (Body resp)) = []
            then None
            else Some (Errorf ''response %q: %w''
                         [Str (snd (UnmarshalOperationResponse e (Body resp)))]
                         ErrRequestFailed)))) \<and>
   (\<forall>err. fst (reconfigure e s) = Some err \<longrightarrow>
      errorsIs err ErrRequestFailed = (\<not> noResponse e (sent s) Reconfigure) \<and>
      wrapsExternal err = noResponse e (sent s) Reconfigure)"
proof (intro conjI allI impI)
  fix err
  assume a: "fst (reconfigure e s) = Some err"
  then obtain s' where "reconfigure e s = (Some err, s')"
    by (cases "reconfigure e s") auto
  from reconfigure_err [OF this]
  show "errorsIs err ErrRequestFailed = (\<not> noResponse e (sent s) Reconfigure)"
    and "wrapsExternal err = noResponse e (sent s) Reconfigure"
    by simp_all
qed (auto simp add: reconfigure_def postAPIRequest_def apiRequest_def clientDo_def
       responseBody_def checkResponse_eq)

lemma Records_outcome:
  "(\<forall>m. NewRequest e SearchHostOverride = Some m \<longrightarrow>
      fst (Records e s) =
        Inl (Errorf ''records request: %w'' []
               (Errorf ''create request: %w'' [] (External m)))) \<and>
   (NewRequest e SearchHostOverride = None \<longrightarrow>
      (\<forall>m. Do e (sent s) SearchHostOverride = TransportError m \<longrightarrow>
         fst (Records e s) = Inl (Errorf ''records response: %w'' [] (External m))) \<and>
      (\<forall>resp. Do e (sent s) SearchHostOverride = Response resp \<and> StatusCode resp \<noteq> StatusOK \<longrightarrow>
         fst (Records e s) = Inl (Errorf ''status %v: %w'' [Str (Status resp)] ErrRequestFailed))) \<and>
   (\<forall>err. fst (Records e s) = Inl err \<longrightarrow>
      errorsIs err ErrRequestFailed =
        (NewRequest e SearchHostOverride = None \<and>
         (\<exists>resp. Do e (sent s) SearchHostOverride = Response resp \<and>
                  StatusCode resp \<noteq> StatusOK)))"
  by (auto simp add: Records_def apiRequest_def clientDo_def marshalEndpoints_def
        split: option.splits sum.splits http_result.splits)

section \<open>The claims\<close>

subsection \<open>Change-sets without changes\<close>

text \<open>
  Claim C9, as amended. \<open>ApplyChanges\<close> returns no error and leaves the state as it was
  (nothing is sent, the cache is untouched) for every change-set that \<open>HasChanges\<close>
  reports as unchanged, that is, whose creation and deletion lists are empty and whose
  two update lists are equal; this covers the change-set with four nil lists. A
  change-set whose four lists are all empty but whose update lists differ (one is nil,
  the other empty and not nil) counts as changed: \<open>ApplyChanges\<close> then makes the
  reconfigure call, and only it, and returns its outcome.
\<close>

theorem ApplyChanges_no_changes:
  "(\<not> HasChanges c \<longrightarrow> ApplyChanges e s c = (None, s)) \<and>
   (elems (Create c) = [] \<and> elems (Delete c) = [] \<and> UpdateNew c = UpdateOld c \<longrightarrow>
      ApplyChanges e s c = (None, s)) \<and>
   (Create c = None \<and> Delete c = None \<and> UpdateOld c = None \<and> UpdateNew c = None \<longrightarrow>
      ApplyChanges e s c = (None, s)) \<and>
   (elems (Create c) = [] \<and> elems (Delete c) = [] \<and> elems (UpdateOld c) = [] \<and>
    elems (UpdateNew c) = [] \<and> UpdateNew c \<noteq> UpdateOld c \<longrightarrow>
      fst (ApplyChanges e s c) =
        map_option (Errorf ''apply changes reconfigure endpoint: %w'' []) (fst (reconfigure e s)) \<and>
      sent (snd (ApplyChanges e s c)) =
        sent s @ (if NewRequest e Reconfigure = None then [Reconfigure] else []))"
proof (intro conjI impI)
  assume "\<not> HasChanges c"
  then show "ApplyChanges e s c = (None, s)" by (rule ApplyChanges_unchanged)
next
  assume "elems (Create c) = [] \<and> elems (Delete c) = [] \<and> UpdateNew c = UpdateOld c"
  then have "\<not> HasChanges c" by (simp add: HasChanges_def)
  then show "ApplyChanges e s c = (None, s)" by (rule ApplyChanges_unchanged)
next
  assume "Create c = None \<and> Delete c = None \<and> UpdateOld c = None \<and> UpdateNew c = None"
  then have "\<not> HasChanges c" by (simp add: HasChanges_def elems_def)
  then show "ApplyChanges e s c = (None, s)" by (rule ApplyChanges_unchanged)
next
  assume a: "elems (Create c) = [] \<and> elems (Delete c) = [] \<and> elems (UpdateOld c) = [] \<and>
    elems (UpdateNew c) = [] \<and> UpdateNew c \<noteq> UpdateOld c"
  then have hc: "HasChanges c" and d: "deletions c = []" and n: "creations c = []"
    by (simp_all add: HasChanges_def deletions_def creations_def)
  from ApplyChanges_only_reconfigure [OF hc d n, of e s]
  show "fst (ApplyChanges e s c) =
        map_option (Errorf ''apply changes reconfigure endpoint: %w'' []) (fst (reconfigure e s))"
    and "sent (snd (ApplyChanges e s c)) =
        sent s @ (if NewRequest e Reconfigure = None then [Reconfigure] else [])"
    by simp_all
qed

theorem ApplyChanges_no_changes_witness:
  "\<not> HasChanges sameUpdate \<and>
   ApplyChanges (testEnv []) newState sameUpdate = (None, newState) \<and>
   Create noChanges = None \<and> Delete noChanges = None \<and> UpdateOld noChanges = None \<and>
   UpdateNew noChanges = None \<and>
   ApplyChanges (testEnv []) newState noChanges = (None, newState) \<and>
   elems (UpdateOld emptyUpdateOld) = [] \<and> elems (UpdateNew emptyUpdateOld) = [] \<and>
   UpdateNew emptyUpdateOld \<noteq> UpdateOld emptyUpdateOld \<and>
   fst (ApplyChanges (testEnv [ok []]) newState emptyUpdateOld) = None \<and>
   sent (snd (ApplyChanges (testEnv [ok []]) newState emptyUpdateOld)) = [Reconfigure]"
proof -
  have u: "\<not> HasChanges sameUpdate"
    by (simp add: HasChanges_def sameUpdate_def noChanges_def elems_def)
  have n: "Create noChanges = None \<and> Delete noChanges = None \<and> UpdateOld noChanges = None \<and>
      UpdateNew noChanges = None"
    by (simp add: noChanges_def)
  have x: "elems (Create emptyUpdateOld) = [] \<and> elems (Delete emptyUpdateOld) = [] \<and>
      elems (UpdateOld emptyUpdateOld) = [] \<and> elems (UpdateNew emptyUpdateOld) = [] \<and>
      UpdateNew emptyUpdateOld \<noteq> UpdateOld emptyUpdateOld"
    by (simp add: emptyUpdateOld_def noChanges_def elems_def)
  have nr: "NewRequest (testEnv [ok []]) Reconfigure = None" by (simp add: testEnv_def)
  from ApplyChanges_no_changes [of sameUpdate "testEnv []" newState] u
  have a: "ApplyChanges (testEnv []) newState sameUpdate = (None, newState)" by blast
  from ApplyChanges_no_changes [of noChanges "testEnv []" newState] n
  have b: "ApplyChanges (testEnv []) newState noChanges = (None, newState)" by blast
  from ApplyChanges_no_changes [of emptyUpdateOld "testEnv [ok []]" newState] x
  have c: "fst (ApplyChanges (testEnv [ok []]) newState emptyUpdateOld) =
        map_option (Errorf ''apply changes reconfigure endpoint: %w'' [])
          (fst (reconfigure (testEnv [ok []]) newState))"
    and d: "sent (snd (ApplyChanges (testEnv [ok []]) newState emptyUpdateOld)) =
        sent newState @ (if NewRequest (testEnv [ok []]) Reconfigure = None then [Reconfigure] else [])"
    by blast+
  from u n x a b c d nr show ?thesis
    by (simp add: reconfigure_example sent_newState)
qed

text \<open>
  The claim as it was stated fails for the change-set whose lists are all empty, with
  \<open>UpdateOld\<close> empty and not nil and the other three nil: \<open>ApplyChanges\<close> returns no error
  and has sent one request, the reconfigure call.
\<close>

theorem empty_lists_reconfigure_counterexample:
  "elems (Create emptyUpdateOld) = [] \<and> elems (Delete emptyUpdateOld) = [] \<and>
   elems (UpdateOld emptyUpdateOld) = [] \<and> elems (UpdateNew emptyUpdateOld) = [] \<and>
   fst (ApplyChanges (testEnv [ok []]) newState emptyUpdateOld) = None \<and>
   sent (snd (ApplyChanges (testEnv [ok []]) newState emptyUpdateOld)) = [Reconfigure]"
proof -
  have hc: "HasChanges emptyUpdateOld"
    by (simp add: HasChanges_def emptyUpdateOld_def noChanges_def)
  have d: "deletions emptyUpdateOld = []" and n: "creations emptyUpdateOld = []"
    by (simp_all add: deletions_def creations_def emptyUpdateOld_def noChanges_def elems_def)
  have nr: "NewRequest (testEnv [ok []]) Reconfigure = None" by (simp add: testEnv_def)
  from ApplyChanges_only_reconfigure [OF hc d n, of "testEnv [ok []]" newState] nr
  have "fst (ApplyChanges (testEnv [ok []]) newState emptyUpdateOld) = None"
    and "sent (snd (ApplyChanges (testEnv [ok []]) newState emptyUpdateOld)) = [Reconfigure]"
    by (simp_all add: reconfigure_example sent_newState)
  then show ?thesis
    by (simp add: emptyUpdateOld_def noChanges_def elems_def)
qed

subsection \<open>Failures while applying a change-set\<close>




subsection \<open>Decoding remote records\<close>

text \<open>
  Claim C2. A row with an empty description decodes to exactly one endpoint. A row whose
  description is the prefix, a space and valid base64 decodes to exactly three endpoints:
  the address record (name \<open>hostname.domain\<close>, set-identifier the remote id, kind the
  text of \<open>rr\<close> before its first space, the description kept as a label), then two
  ownership records with the decoded value as their only target and no set-identifier,
  one under the same name and one under \<open>a-\<close> followed by the name. The same holds, more
  generally, whenever the text after the prefix decodes once it is trimmed of white
  space. The endpoints of a list of rows are those of its rows, in order.
\<close>

theorem ToEndpoints_ownership:
  "(Description row = [] \<longrightarrow>
      ToEndpoints [row] =
        [\<lparr>DNSName = Hostname row @ ''.'' @ Domain_f row, Targets = Some [Server row],
          RecordType = takeWhile (\<lambda>x. x \<noteq> CHR '' '') (Rr row),
          SetIdentifier = UUID row, RecordTTL = 0, Labels = None,
          ProviderSpecific = None\<rparr>]) \<and>
   (\<forall>b decoded.
      Description row = DescriptionPrefix @ '' '' @ b \<and> DecodeString b = Some decoded \<longrightarrow>
      ToEndpoints [row] =
        [\<lparr>DNSName = Hostname row @ ''.'' @ Domain_f row, Targets = Some [Server row],
          RecordType = takeWhile (\<lambda>x. x \<noteq> CHR '' '') (Rr row),
          SetIdentifier = UUID row, RecordTTL = 0,
          Labels = Some [''description'' \<mapsto> Description row], ProviderSpecific = None\<rparr>,
         ownershipRecord (Hostname row @ ''.'' @ Domain_f row) decoded,
         ownershipRecord (''a-'' @ Hostname row @ ''.'' @ Domain_f row) decoded]) \<and>
   (\<forall>rest decoded.
      Description row = DescriptionPrefix @ rest \<and> DecodeString (TrimSpace rest) = Some decoded \<longrightarrow>
      ToEndpoints [row] =
        [\<lparr>DNSName = Hostname row @ ''.'' @ Domain_f row, Targets = Some [Server row],
          RecordType = takeWhile (\<lambda>x. x \<noteq> CHR '' '') (Rr row),
          SetIdentifier = UUID row, RecordTTL = 0,
          Labels = Some [''description'' \<mapsto> Description row], ProviderSpecific = None\<rparr>,
         ownershipRecord (Hostname row @ ''.'' @ Domain_f row) decoded,
         ownershipRecord (''a-'' @ Hostname row @ ''.'' @ Domain_f row) decoded]) \<and>
   ToEndpoints rows = concat (map (\<lambda>row. ToEndpoints [row]) rows)"
proof -
  let ?three = "\<lambda>decoded.
        [\<lparr>DNSName = Hostname row @ ''.'' @ Domain_f row, Targets = Some [Server row],
          RecordType = takeWhile (\<lambda>x. x \<noteq> CHR '' '') (Rr row),
          SetIdentifier = UUID row, RecordTTL = 0,
          Labels = Some [''description'' \<mapsto> Description row], ProviderSpecific = None\<rparr>,
         ownershipRecord (Hostname row @ ''.'' @ Domain_f row) decoded,
         ownershipRecord (''a-'' @ Hostname row @ ''.'' @ Domain_f row) decoded]"
  have general: "ToEndpoints [row] = ?three decoded"
    if a: "Description row = DescriptionPrefix @ rest" "DecodeString (TrimSpace rest) = Some decoded"
    for rest decoded
  proof -
    from a have "endpointsFromBase64Description (Hostname row @ ''.'' @ Domain_f row)
        (Description row) =
      Some [ownershipRecord (Hostname row @ ''.'' @ Domain_f row) decoded,
            ownershipRecord (''a-'' @ Hostname row @ ''.'' @ Domain_f row) decoded]"
      by (simp add: endpointsFromBase64Description_eq HasPrefix_append)
    with a show ?thesis
      by (simp add: marshalledEndpoint_eq DescriptionPrefix_not_Nil)
  qed
  have framed: "ToEndpoints [row] = ?three decoded"
    if b: "Description row = DescriptionPrefix @ '' '' @ b" "DecodeString b = Some decoded"
    for b decoded
    using general [OF b(1) DecodeString_framed [OF b(2)]] .
  have one: "ToEndpoints [row] =
        [\<lparr>DNSName = Hostname row @ ''.'' @ Domain_f row, Targets = Some [Server row],
          RecordType = takeWhile (\<lambda>x. x \<noteq> CHR '' '') (Rr row),
          SetIdentifier = UUID row, RecordTTL = 0, Labels = None,
          ProviderSpecific = None\<rparr>]"
    if "Description row = []"
    using that
    by (simp add: marshalledEndpoint_eq endpointsFromBase64Description_eq HasPrefix_Nil)
  from one framed general ToEndpoints_concat [of rows] show ?thesis by blast
qed

theorem ToEndpoints_ownership_witness:
  "Description plainRow = [] \<and>
   ToEndpoints [plainRow] =
     [\<lparr>DNSName = ''bar.example.domain'', Targets = Some [''fe80::1''], RecordType = ''AAAA'',
       SetIdentifier = ''u2'', RecordTTL = 0, Labels = None, ProviderSpecific = None\<rparr>] \<and>
   Description fooRow = DescriptionPrefix @ '' '' @ ''aGk='' \<and>
   DecodeString ''aGk='' = Some ''hi'' \<and>
   ToEndpoints [fooRow] =
     [\<lparr>DNSName = ''foo.example.domain'', Targets = Some [''10.0.0.4''], RecordType = ''A'',
       SetIdentifier = ''u1'', RecordTTL = 0,
       Labels = Some [''description'' \<mapsto> ''Managed by K8s external-dns aGk=''],
       ProviderSpecific = None\<rparr>,
      ownershipRecord ''foo.example.domain'' ''hi'',
      ownershipRecord ''a-foo.example.domain'' ''hi'']"
proof -
  have p: "Description plainRow = []" by (simp add: plainRow_def)
  have f: "Description fooRow = DescriptionPrefix @ '' '' @ ''aGk=''"
    by (simp add: fooRow_def DescriptionPrefix_def)
  note d = DecodeString_example
  from ToEndpoints_ownership [of plainRow] p
  have one: "ToEndpoints [plainRow] =
     [\<lparr>DNSName = Hostname plainRow @ ''.'' @ Domain_f plainRow, Targets = Some [Server plainRow],
       RecordType = takeWhile (\<lambda>x. x \<noteq> CHR '' '') (Rr plainRow),
       SetIdentifier = UUID plainRow, RecordTTL = 0, Labels = None,
       ProviderSpecific = None\<rparr>]"
    by blast
  from ToEndpoints_ownership [of fooRow] f d
  have three: "ToEndpoints [fooRow] =
     [\<lparr>DNSName = Hostname fooRow @ ''.'' @ Domain_f fooRow, Targets = Some [Server fooRow],
       RecordType = takeWhile (\<lambda>x. x \<noteq> CHR '' '') (Rr fooRow),
       SetIdentifier = UUID fooRow, RecordTTL = 0,
       Labels = Some [''description'' \<mapsto> Description fooRow], ProviderSpecific = None\<rparr>,
      ownershipRecord (Hostname fooRow @ ''.'' @ Domain_f fooRow) ''hi'',
      ownershipRecord (''a-'' @ Hostname fooRow @ ''.'' @ Domain_f fooRow) ''hi'']"
    by blast
  from p f d show ?thesis
    unfolding one three by (simp add: plainRow_def fooRow_def)
qed


subsection \<open>Record kinds and remote calls\<close>




subsection \<open>Encoding and decoding an address record\<close>

text \<open>
  Claim C4. Let the record be of an address kind, and take the body that
  \<open>createRequestJSON\<close> builds for its i-th target. The body holds the hostname (the first
  dot-separated segment of the name), the domain (what follows the first dot), the
  target and the kind of the record. Decoding it with \<open>ToEndpoints\<close> gives first an
  address record with the name \<open>hostname.domain\<close>, that one target and the same kind; the
  name splits again into the same hostname and domain, and it is the record's name when
  that name has a dot. What follows the address record is nothing, or the two ownership
  records made from the description: they are added, the address record stays.
\<close>

theorem encode_decode_roundtrip:
  assumes "supportedType (RecordType ep)" and "i < length (elems (Targets ep))"
  shows
    "Hostname (createRequestJSON h ep ! i) = hostPart (DNSName ep) \<and>
     Domain_f (createRequestJSON h ep ! i) = domainPart (DNSName ep) \<and>
     Server (createRequestJSON h ep ! i) = elems (Targets ep) ! i \<and>
     Rr (createRequestJSON h ep ! i) = RecordType ep \<and>
     (\<exists>extra.
        ToEndpoints [createRequestJSON h ep ! i] =
          \<lparr>DNSName = hostPart (DNSName ep) @ ''.'' @ domainPart (DNSName ep),
           Targets = Some [elems (Targets ep) ! i],
           RecordType = RecordType ep,
           SetIdentifier = [],
           RecordTTL = 0,
           Labels = Some [''description'' \<mapsto> createDescription h (DNSName ep)],
           ProviderSpecific = None\<rparr> # extra \<and>
        (extra = [] \<or>
         (\<exists>v. extra =
            [ownershipRecord (hostPart (DNSName ep) @ ''.'' @ domainPart (DNSName ep)) v,
             ownershipRecord (''a-'' @ hostPart (DNSName ep) @ ''.'' @ domainPart (DNSName ep)) v]))) \<and>
     hostPart (hostPart (DNSName ep) @ ''.'' @ domainPart (DNSName ep)) = hostPart (DNSName ep) \<and>
     domainPart (hostPart (DNSName ep) @ ''.'' @ domainPart (DNSName ep)) = domainPart (DNSName ep) \<and>
     (CHR ''.'' \<in> set (DNSName ep) \<longrightarrow>
        hostPart (DNSName ep) @ ''.'' @ domainPart (DNSName ep) = DNSName ep)"
proof -
  let ?r = "createRequestJSON h ep ! i"
  let ?n = "hostPart (DNSName ep) @ ''.'' @ domainPart (DNSName ep)"
  from assms(2) have m: "?r \<in> set (createRequestJSON h ep)"
    by (simp add: createRequestJSON_def Let_def)
  from createRequestJSON_fields [OF m]
  have f: "Rr ?r = RecordType ep" "Description ?r = createDescription h (DNSName ep)"
    "Hostname ?r = hostPart (DNSName ep)" "Domain_f ?r = domainPart (DNSName ep)"
    "UUID ?r = []"
    by simp_all
  from assms(2) have sv: "Server ?r = elems (Targets ep) ! i"
    by (simp add: createRequestJSON_def Let_def)
  have ne: "createDescription h (DNSName ep) \<noteq> []"
    by (simp add: createDescription_def appendToDescription_def DescriptionPrefix_def)
  from f sv ne assms(1) have me: "marshalledEndpoint ?r =
      \<lparr>DNSName = ?n, Targets = Some [elems (Targets ep) ! i], RecordType = RecordType ep,
       SetIdentifier = [], RecordTTL = 0,
       Labels = Some [''description'' \<mapsto> createDescription h (DNSName ep)],
       ProviderSpecific = None\<rparr>"
    by (simp add: marshalledEndpoint_eq first_token_address_kind)
  let ?extra = "case endpointsFromBase64Description ?n (Description ?r) of
                  Some txtEndpoints \<Rightarrow> txtEndpoints | None \<Rightarrow> []"
  from me have t: "ToEndpoints [?r] = marshalledEndpoint ?r # ?extra" by simp
  have x: "?extra = [] \<or> (\<exists>v. ?extra = [ownershipRecord ?n v, ownershipRecord (''a-'' @ ?n) v])"
    by (auto simp add: endpointsFromBase64Description_eq split: option.splits)
  from t x me have "\<exists>extra.
        ToEndpoints [?r] =
          \<lparr>DNSName = ?n, Targets = Some [elems (Targets ep) ! i], RecordType = RecordType ep,
           SetIdentifier = [], RecordTTL = 0,
           Labels = Some [''description'' \<mapsto> createDescription h (DNSName ep)],
           ProviderSpecific = None\<rparr> # extra \<and>
        (extra = [] \<or> (\<exists>v. extra = [ownershipRecord ?n v, ownershipRecord (''a-'' @ ?n) v]))"
    by (intro exI [of _ ?extra]) simp
  moreover have "CHR ''.'' \<in> set (DNSName ep) \<longrightarrow> ?n = DNSName ep"
    by (rule impI) (rule name_rebuilt)
  ultimately show ?thesis
    using f sv by (simp only: hostPart_rebuilt domainPart_rebuilt simp_thms)
qed

theorem encode_decode_roundtrip_witness:
  "supportedType (RecordType (mkEndpoint ''create.me'' ''A'' ''1.2.3.4'' [])) \<and>
   0 < length (elems (Targets (mkEndpoint ''create.me'' ''A'' ''1.2.3.4'' []))) \<and>
   Hostname (createRequestJSON Map.empty (mkEndpoint ''create.me'' ''A'' ''1.2.3.4'' []) ! 0) =
     ''create'' \<and>
   Domain_f (createRequestJSON Map.empty (mkEndpoint ''create.me'' ''A'' ''1.2.3.4'' []) ! 0) =
     ''me'' \<and>
   (\<exists>extra.
      ToEndpoints [createRequestJSON Map.empty (mkEndpoint ''create.me'' ''A'' ''1.2.3.4'' []) ! 0] =
        \<lparr>DNSName = ''create.me'', Targets = Some [''1.2.3.4''], RecordType = ''A'',
         SetIdentifier = [], RecordTTL = 0,
         Labels = Some [''description'' \<mapsto> ''Managed by K8s external-dns ''],
         ProviderSpecific = None\<rparr> # extra)"
proof -
  let ?ep = "mkEndpoint ''create.me'' ''A'' ''1.2.3.4'' []"
  have k: "supportedType (RecordType ?ep)"
    by (simp add: mkEndpoint_def supportedType_def RecordTypeA_def)
  have l: "0 < length (elems (Targets ?ep))" by (simp add: mkEndpoint_def elems_def)
  have v: "hostPart (DNSName ?ep) = ''create''" "domainPart (DNSName ?ep) = ''me''"
    "elems (Targets ?ep) ! 0 = ''1.2.3.4''" "RecordType ?ep = ''A''"
    "createDescription Map.empty (DNSName ?ep) = ''Managed by K8s external-dns ''"
    by (simp_all add: mkEndpoint_def hostPart_def domainPart_def createDescription_def
          appendToDescription_def DescriptionPrefix_def elems_def)
  from encode_decode_roundtrip [OF k l, of Map.empty] k l show ?thesis
    unfolding v by auto
qed

subsection \<open>The two error kinds of a read\<close>

text \<open>
  Claim C5. When the remote side answers a read with a status other than 200 (every
  non-success status is one), \<open>Records\<close> returns an error that is testable as
  \<open>ErrRequestFailed\<close> and not as \<open>ErrMarshalling\<close>. When the status is 200 and the body
  cannot be read or does not unmarshal into a \<open>SearchHostResp\<close>, \<open>Records\<close> returns an
  error that is testable as \<open>ErrMarshalling\<close> and not as \<open>ErrRequestFailed\<close>. No error of
  \<open>Records\<close> is testable as both.
\<close>

theorem Records_error_kinds:
  assumes "NewRequest e SearchHostOverride = None"
    and "Do e (sent s) SearchHostOverride = Response resp"
  shows
    "(StatusCode resp \<noteq> StatusOK \<longrightarrow>
        (\<exists>err. fst (Records e s) = Inl err \<and>
           errorsIs err ErrRequestFailed \<and> \<not> errorsIs err ErrMarshalling)) \<and>
     (StatusCode resp = StatusOK \<and>
        (BodyErr resp \<noteq> None \<or> (\<exists>m. UnmarshalSearchHostResp e (Body resp) = Inl m)) \<longrightarrow>
        (\<exists>err. fst (Records e s) = Inl err \<and>
           errorsIs err ErrMarshalling \<and> \<not> errorsIs err ErrRequestFailed)) \<and>
     (\<forall>err. fst (Records e s) = Inl err \<longrightarrow>
        \<not> (errorsIs err ErrRequestFailed \<and> errorsIs err ErrMarshalling))"
  using assms
  by (auto simp add: Records_def apiRequest_def clientDo_def marshalEndpoints_def
        split: option.splits sum.splits)

theorem Records_error_kinds_witness:
  "NewRequest (testEnv [badRequest]) SearchHostOverride = None \<and>
   Do (testEnv [badRequest]) (sent newState) SearchHostOverride = badRequest \<and>
   (\<exists>err. fst (Records (testEnv [badRequest]) newState) = Inl err \<and>
      errorsIs err ErrRequestFailed \<and> \<not> errorsIs err ErrMarshalling) \<and>
   NewRequest (testEnv [ok ''{'']) SearchHostOverride = None \<and>
   Do (testEnv [ok ''{'']) (sent newState) SearchHostOverride = ok ''{'' \<and>
   (\<exists>err. fst (Records (testEnv [ok ''{'']) newState) = Inl err \<and>
      errorsIs err ErrMarshalling \<and> \<not> errorsIs err ErrRequestFailed)"
proof -
  let ?bad = "\<lparr>StatusCode = 400, Status = ''400 Bad Request'', Body = [], BodyErr = None\<rparr>"
  let ?open = "\<lparr>StatusCode = 200, Status = ''200 OK'', Body = ''{'', BodyErr = None\<rparr>"
  have n1: "NewRequest (testEnv [badRequest]) SearchHostOverride = None"
    and n2: "NewRequest (testEnv [ok ''{'']) SearchHostOverride = None"
    by (simp_all add: testEnv_def)
  have d1: "Do (testEnv [badRequest]) (sent newState) SearchHostOverride = Response ?bad"
    by (simp add: testEnv_def scripted_def newState_def badRequest_def)
  have d2: "Do (testEnv [ok ''{'']) (sent newState) SearchHostOverride = Response ?open"
    by (simp add: testEnv_def scripted_def newState_def ok_def)
  have c1: "StatusCode ?bad \<noteq> StatusOK" by (simp add: StatusOK_def)
  have c2: "StatusCode ?open = StatusOK \<and>
      (BodyErr ?open \<noteq> None \<or> (\<exists>m. UnmarshalSearchHostResp (testEnv [ok ''{'']) (Body ?open) = Inl m))"
    by (simp add: StatusOK_def testEnv_def)
  from Records_error_kinds [OF n1 d1] c1
  have a: "\<exists>err. fst (Records (testEnv [badRequest]) newState) = Inl err \<and>
      errorsIs err ErrRequestFailed \<and> \<not> errorsIs err ErrMarshalling"
    by blast
  from Records_error_kinds [OF n2 d2] c2
  have b: "\<exists>err. fst (Records (testEnv [ok ''{'']) newState) = Inl err \<and>
      errorsIs err ErrMarshalling \<and> \<not> errorsIs err ErrRequestFailed"
    by blast
  from n1 n2 d1 d2 a b show ?thesis
    by (simp add: badRequest_def ok_def)
qed

subsection \<open>The description of an outgoing record\<close>

text \<open>
  Claim C6. \<open>createRequestJSON\<close> gives one body for each target of the record, in the
  order of the targets, and the description of every body is the prefix, one space, and
  the base64 encoding of the cache's value for the record's name; with no cache entry for
  the name this is the prefix and the space alone. Every create call that
  \<open>createEndpoints\<close> sends is stamped in this way from the cache, for a record of an
  address kind of its list, whether or not the record has to do with ownership.
\<close>

theorem createRequestJSON_description:
  "length (createRequestJSON h ep) = length (elems (Targets ep)) \<and>
   map Server (createRequestJSON h ep) = elems (Targets ep) \<and>
   (\<forall>rec \<in> set (createRequestJSON h ep).
      Description rec =
        DescriptionPrefix @ '' '' @
        EncodeToString (case h (DNSName ep) of None \<Rightarrow> [] | Some v \<Rightarrow> v)) \<and>
   (h (DNSName ep) = None \<longrightarrow>
      (\<forall>rec \<in> set (createRequestJSON h ep). Description rec = DescriptionPrefix @ '' '')) \<and>
   (\<forall>r s' rec.
      createEndpoints e s eps = (r, s') \<and>
      AddHostOverride rec \<in> set (drop (length (sent s)) (sent s')) \<longrightarrow>
      (\<exists>ep' \<in> set eps.
         supportedType (RecordType ep') \<and>
         Description rec =
           DescriptionPrefix @ '' '' @
           EncodeToString (case knownRecords s (DNSName ep') of None \<Rightarrow> [] | Some v \<Rightarrow> v)))"
proof (intro conjI ballI allI impI)
  show "length (createRequestJSON h ep) = length (elems (Targets ep))"
    by (simp add: createRequestJSON_def Let_def)
  show "map Server (createRequestJSON h ep) = elems (Targets ep)"
    by (simp add: createRequestJSON_def Let_def comp_def)
next
  fix rec
  assume "rec \<in> set (createRequestJSON h ep)"
  from createRequestJSON_fields [OF this]
  show "Description rec =
        DescriptionPrefix @ '' '' @
        EncodeToString (case h (DNSName ep) of None \<Rightarrow> [] | Some v \<Rightarrow> v)"
    by (simp add: createDescription_def appendToDescription_def)
next
  fix rec
  assume "h (DNSName ep) = None" and "rec \<in> set (createRequestJSON h ep)"
  with createRequestJSON_fields [of rec h ep]
  show "Description rec = DescriptionPrefix @ '' ''"
    by (simp add: createDescription_def appendToDescription_def)
next
  fix r s' rec
  assume a: "createEndpoints e s eps = (r, s') \<and>
      AddHostOverride rec \<in> set (drop (length (sent s)) (sent s'))"
  then obtain n where
    "sent s' = sent s @ map AddHostOverride (take n (createPayloads (knownRecords s) eps))"
    using createEndpoints_sent [of e s eps r s'] by auto
  with a have "AddHostOverride rec \<in> AddHostOverride ` set (take n (createPayloads (knownRecords s) eps))"
    by simp
  then have "rec \<in> set (take n (createPayloads (knownRecords s) eps))" by auto
  then have "rec \<in> set (createPayloads (knownRecords s) eps)" by (rule in_set_takeD)
  then obtain ep' where ep': "ep' \<in> set eps" "supportedType (RecordType ep')"
    "rec \<in> set (createRequestJSON (knownRecords s) ep')"
    by (auto simp add: createPayloads_set)
  from createRequestJSON_fields [OF ep'(3)]
  have "Description rec =
           DescriptionPrefix @ '' '' @
           EncodeToString (case knownRecords s (DNSName ep') of None \<Rightarrow> [] | Some v \<Rightarrow> v)"
    by (simp add: createDescription_def appendToDescription_def)
  with ep' show "\<exists>ep' \<in> set eps.
         supportedType (RecordType ep') \<and>
         Description rec =
           DescriptionPrefix @ '' '' @
           EncodeToString (case knownRecords s (DNSName ep') of None \<Rightarrow> [] | Some v \<Rightarrow> v)"
    by blast
qed

theorem createRequestJSON_description_witness:
  "createRequestJSON [''create.me'' \<mapsto> ''hi''] (mkEndpoint ''create.me'' ''A'' ''1.2.3.4'' []) =
     [\<lparr>UUID = [], Hostname = ''create'', Domain_f = ''me'', Rr = ''A'', Server = ''1.2.3.4'',
       Enabled = ''1'', Description = ''Managed by K8s external-dns aGk=''\<rparr>] \<and>
   Map.empty (DNSName (mkEndpoint ''update.this'' ''A'' ''4.3.2.1'' [])) = (None :: string option) \<and>
   map Server (createRequestJSON Map.empty (mkEndpoint ''update.this'' ''A'' ''4.3.2.1'' [])) =
     [''4.3.2.1''] \<and>
   map Description (createRequestJSON Map.empty (mkEndpoint ''update.this'' ''A'' ''4.3.2.1'' [])) =
     [''Managed by K8s external-dns '']"
proof -
  let ?h = "[''create.me'' \<mapsto> ''hi'']"
  let ?ep = "mkEndpoint ''create.me'' ''A'' ''1.2.3.4'' []"
  let ?up = "mkEndpoint ''update.this'' ''A'' ''4.3.2.1'' []"
  have one: "createRequestJSON ?h ?ep =
     [\<lparr>UUID = [], Hostname = ''create'', Domain_f = ''me'', Rr = ''A'', Server = ''1.2.3.4'',
       Enabled = ''1'', Description = ''Managed by K8s external-dns aGk=''\<rparr>]"
    by code_simp
  have none: "Map.empty (DNSName ?up) = (None :: string option)" by simp
  from createRequestJSON_description [of Map.empty ?up] none
  have len: "length (createRequestJSON Map.empty ?up) = length (elems (Targets ?up))"
    and srv: "map Server (createRequestJSON Map.empty ?up) = elems (Targets ?up)"
    and all: "\<forall>rec \<in> set (createRequestJSON Map.empty ?up).
        Description rec = DescriptionPrefix @ '' ''"
    by blast+
  from len obtain x where x: "createRequestJSON Map.empty ?up = [x]"
    by (cases "createRequestJSON Map.empty ?up") (auto simp add: mkEndpoint_def elems_def)
  with all have "map Description (createRequestJSON Map.empty ?up) = [DescriptionPrefix @ '' '']"
    by simp
  with one none srv show ?thesis by (simp add: DescriptionPrefix_def mkEndpoint_def elems_def)
qed

subsection \<open>When ownership records are synthesized\<close>

text \<open>
  Claim C7, as amended. Ownership decoding is attempted exactly when the description
  starts with the prefix \<open>Managed by K8s external-dns\<close>; no space has to follow it. What
  follows the prefix is trimmed of white space on both sides and then decoded, and the
  two ownership records are synthesized exactly when that decoding succeeds. A
  description that does not start with the prefix never yields ownership records.
\<close>

theorem endpointsFromBase64Description_prefix:
  "(\<not> HasPrefix description DescriptionPrefix \<longrightarrow>
      endpointsFromBase64Description dnsName description = None \<and>
      (Description row = description \<longrightarrow> ToEndpoints [row] = [marshalledEndpoint row])) \<and>
   (\<forall>rest. description = DescriptionPrefix @ rest \<longrightarrow>
      endpointsFromBase64Description dnsName description =
        map_option (\<lambda>decoded. [ownershipRecord dnsName decoded,
                                ownershipRecord (''a-'' @ dnsName) decoded])
          (DecodeString (TrimSpace rest))) \<and>
   HasPrefix description DescriptionPrefix = (\<exists>rest. description = DescriptionPrefix @ rest)"
proof (intro conjI allI impI)
  assume n: "\<not> HasPrefix description DescriptionPrefix"
  then show "endpointsFromBase64Description dnsName description = None"
    by (simp add: endpointsFromBase64Description_eq)
  assume "Description row = description"
  with n show "ToEndpoints [row] = [marshalledEndpoint row]"
    by (simp add: endpointsFromBase64Description_eq)
next
  fix rest
  assume "description = DescriptionPrefix @ rest"
  then show "endpointsFromBase64Description dnsName description =
        map_option (\<lambda>decoded. [ownershipRecord dnsName decoded,
                                ownershipRecord (''a-'' @ dnsName) decoded])
          (DecodeString (TrimSpace rest))"
    by (simp add: endpointsFromBase64Description_eq HasPrefix_append)
next
  show "HasPrefix description DescriptionPrefix = (\<exists>rest. description = DescriptionPrefix @ rest)"
    by (rule HasPrefix_iff)
qed

theorem endpointsFromBase64Description_prefix_witness:
  "\<not> HasPrefix ''managed by hand'' DescriptionPrefix \<and>
   endpointsFromBase64Description ''foo.bar'' ''managed by hand'' = None \<and>
   ''Managed by K8s external-dns aGk='' = DescriptionPrefix @ '' aGk='' \<and>
   endpointsFromBase64Description ''foo.bar'' ''Managed by K8s external-dns aGk='' =
     Some [ownershipRecord ''foo.bar'' ''hi'', ownershipRecord ''a-foo.bar'' ''hi'']"
proof -
  have n: "\<not> HasPrefix ''managed by hand'' DescriptionPrefix"
    by (simp add: HasPrefix_def DescriptionPrefix_def)
  have p: "''Managed by K8s external-dns aGk='' = DescriptionPrefix @ '' aGk=''"
    by (simp add: DescriptionPrefix_def)
  from endpointsFromBase64Description_prefix [of "''managed by hand''" "''foo.bar''"] n
  have a: "endpointsFromBase64Description ''foo.bar'' ''managed by hand'' = None"
    by blast
  from endpointsFromBase64Description_prefix
         [of "''Managed by K8s external-dns aGk=''" "''foo.bar''"] p
  have b: "endpointsFromBase64Description ''foo.bar'' ''Managed by K8s external-dns aGk='' =
        map_option (\<lambda>decoded. [ownershipRecord ''foo.bar'' decoded,
                                ownershipRecord (''a-'' @ ''foo.bar'') decoded])
          (DecodeString (TrimSpace '' aGk=''))"
    by blast
  from n p a show ?thesis
    unfolding b by (simp add: TrimSpace_example DecodeString_example)
qed

text \<open>
  The claim as it was stated fails for a description in which the base64 text follows
  the prefix at once: it does not start with the prefix and a space, and it still yields
  the two ownership records.
\<close>

theorem ownership_without_space_counterexample:
  "\<not> HasPrefix ''Managed by K8s external-dnsaGk='' (DescriptionPrefix @ '' '') \<and>
   endpointsFromBase64Description ''foo.bar'' ''Managed by K8s external-dnsaGk='' =
     Some [ownershipRecord ''foo.bar'' ''hi'', ownershipRecord ''a-foo.bar'' ''hi'']"
proof
  show "\<not> HasPrefix ''Managed by K8s external-dnsaGk='' (DescriptionPrefix @ '' '')"
    by (simp add: HasPrefix_def DescriptionPrefix_def)
  have "''Managed by K8s external-dnsaGk='' = DescriptionPrefix @ ''aGk=''"
    by (simp add: DescriptionPrefix_def)
  then have "endpointsFromBase64Description ''foo.bar'' ''Managed by K8s external-dnsaGk='' =
      map_option (\<lambda>decoded. [ownershipRecord ''foo.bar'' decoded,
                              ownershipRecord (''a-'' @ ''foo.bar'') decoded])
        (DecodeString (TrimSpace ''aGk=''))"
    by (simp only: endpointsFromBase64Description_eq HasPrefix_append if_True
          append_eq_conv_conj [THEN iffD1, THEN conjunct2, symmetric]) 
  then show "endpointsFromBase64Description ''foo.bar'' ''Managed by K8s external-dnsaGk='' =
     Some [ownershipRecord ''foo.bar'' ''hi'', ownershipRecord ''a-foo.bar'' ''hi'']"
    by (simp add: TrimSpace_unpadded DecodeString_example)
qed


subsection \<open>Transport errors\<close>

text \<open>
  Claim C8, as amended. In each of the four remote operations (read, create, delete,
  reconfigure):
  a request that cannot be built returns the error of building it, wrapped twice
  (\<open>records request\<close>, \<open>create endpoint request\<close>, \<open>delete request\<close> or
  \<open>reconfigure request create\<close> around \<open>create request\<close>);
  a transport error of the HTTP request is returned wrapped as it is (\<open>records response\<close>,
  \<open>create http do\<close>, \<open>delete http do\<close>, \<open>reconfigure\<close>);
  neither error is testable as \<open>ErrRequestFailed\<close>;
  an answer with a status other than 200 gives an error that wraps \<open>ErrRequestFailed\<close>.
  In the three write operations an answer with status 200 gives no error when its result
  field can be read and is the expected one (\<open>saved\<close>, \<open>deleted\<close>, or empty for
  reconfigure), and gives an error that wraps \<open>ErrRequestFailed\<close> otherwise.
  So the error of a write operation is testable as \<open>ErrRequestFailed\<close> exactly when the
  remote side answered the request (it was built, and sent without a transport error),
  and wraps an error made outside the package exactly when it did not; the error of a
  read is testable as \<open>ErrRequestFailed\<close> exactly when the remote side answered with a
  status other than 200. A transport error and a status other than 200 therefore give
  different error kinds.
\<close>

theorem transport_error_wrapped:
  "((\<forall>m. NewRequest e SearchHostOverride = Some m \<longrightarrow>
      fst (Records e s) =
        Inl (Errorf ''records request: %w'' []
               (Errorf ''create request: %w'' [] (External m)))) \<and>
    (NewRequest e SearchHostOverride = None \<longrightarrow>
      (\<forall>m. Do e (sent s) SearchHostOverride = TransportError m \<longrightarrow>
         fst (Records e s) = Inl (Errorf ''records response: %w'' [] (External m))) \<and>
      (\<forall>resp. Do e (sent s) SearchHostOverride = Response resp \<and> StatusCode resp \<noteq> StatusOK \<longrightarrow>
         fst (Records e s) = Inl (Errorf ''status %v: %w'' [Str (Status resp)] ErrRequestFailed))) \<and>
    (\<forall>err. fst (Records e s) = Inl err \<longrightarrow>
      errorsIs err ErrRequestFailed =
        (NewRequest e SearchHostOverride = None \<and>
         (\<exists>resp. Do e (sent s) SearchHostOverride = Response resp \<and>
                  StatusCode resp \<noteq> StatusOK)))) \<and>
   ((\<forall>m. NewRequest e (AddHostOverride d) = Some m \<longrightarrow>
      fst (createTarget e s d ep) =
        Some (Errorf ''create endpoint request: %w'' []
                (Errorf ''create request: %w'' [] (External m)))) \<and>
    (NewRequest e (AddHostOverride d) = None \<longrightarrow>
      (\<forall>m. Do e (sent s) (AddHostOverride d) = TransportError m \<longrightarrow>
         fst (createTarget e s d ep) = Some (Errorf ''create http do: %w'' [] (External m))) \<and>
      (\<forall>resp. Do e (sent s) (AddHostOverride d) = Response resp \<and> StatusCode resp \<noteq> StatusOK \<longrightarrow>
         fst (createTarget e s d ep) =
           Some (Errorf ''response status: %v: %w'' [Num (StatusCode resp)] ErrRequestFailed)) \<and>
      (\<forall>resp. Do e (sent s) (AddHostOverride d) = Response resp \<and> StatusCode resp = StatusOK \<longrightarrow>
         fst (createTarget e s d ep) =
           (if fst (UnmarshalOperationResponse e (Body resp)) = None \<and>
               snd (UnmarshalOperationResponse e (Body resp)) = CreateOpSuccessResponse
            then None
            else Some (Errorf ''response %q: %w''
                         [Str (snd (UnmarshalOperationResponse e (Body resp)))]
                         ErrRequestFailed)))) \<and>
    (\<forall>err. fst (createTarget e s d ep) = Some err \<longrightarrow>
      errorsIs err ErrRequestFailed = (\<not> noResponse e (sent s) (AddHostOverride d)) \<and>
      wrapsExternal err = noResponse e (sent s) (AddHostOverride d))) \<and>
   ((\<forall>m. NewRequest e (delRequest ep) = Some m \<longrightarrow>
      fst (deleteEndpoint e s ep) =
        Some (Errorf ''delete request: %w'' []
                (Errorf ''create request: %w'' [] (External m)))) \<and>
    (NewRequest e (delRequest ep) = None \<longrightarrow>
      (\<forall>m. Do e (sent s) (delRequest ep) = TransportError m \<longrightarrow>
         fst (deleteEndpoint e s ep) = Some (Errorf ''delete http do: %w'' [] (External m))) \<and>
      (\<forall>resp. Do e (sent s) (delRequest ep) = Response resp \<and> StatusCode resp \<noteq> StatusOK \<longrightarrow>
         fst (deleteEndpoint e s ep) =
           Some (Errorf ''response status: %v: %w'' [Num (StatusCode resp)] ErrRequestFailed)) \<and>
      (\<forall>resp. Do e (sent s) (delRequest ep) = Response resp \<and> StatusCode resp = StatusOK \<longrightarrow>
         fst (deleteEndpoint e s ep) =
           (if fst (UnmarshalOperationResponse e (Body resp)) = None \<and>
               snd (UnmarshalOperationResponse e (Body resp)) = DeleteOpSuccessResponse
            then None
            else Some (Errorf ''response %q: %w''
                         [Str (snd (UnmarshalOperationResponse e (Body resp)))]
                         ErrRequestFailed)))) \<and>
    (\<forall>err. fst (deleteEndpoint e s ep) = Some err \<longrightarrow>
      errorsIs err ErrRequestFailed = (\<not> noResponse e (sent s) (delRequest ep)) \<and>
      wrapsExternal err = noResponse e (sent s) (delRequest ep))) \<and>
   ((\<forall>m. NewRequest e Reconfigure = Some m \<longrightarrow>
      fst (reconfigure e s) =
        Some (Errorf ''reconfigure request create: %w'' []
                (Errorf ''create request: %w'' [] (External m)))) \<and>
    (NewRequest e Reconfigure = None \<longrightarrow>
      (\<forall>m. Do e (sent s) Reconfigure = TransportError m \<longrightarrow>
         fst (reconfigure e s) = Some (Errorf ''reconfigure: %w'' [] (External m))) \<and>
      (\<forall>resp. Do e (sent s) Reconfigure = Response resp \<and> StatusCode resp \<noteq> StatusOK \<longrightarrow>
         fst (reconfigure e s) =
           Some (Errorf ''response status: %v: %w'' [Num (StatusCode resp)] ErrRequestFailed)) \<and>
      (\<forall>resp. Do e (sent s) Reconfigure = Response resp \<and> StatusCode resp = StatusOK \<longrightarrow>
         fst (reconfigure e s) =
           (if fst (UnmarshalOperationResponse e (Body resp)) = None \<and>
               snd (UnmarshalOperationResponse e (Body resp)) = []
            then None
            else Some (Errorf ''response %q: %w''
                         [Str (snd (UnmarshalOperationResponse e (Body resp)))]
                         ErrRequestFailed)))) \<and>
    (\<forall>err. fst (reconfigure e s) = Some err \<longrightarrow>
      errorsIs err ErrRequestFailed = (\<not> noResponse e (sent s) Reconfigure) \<and>
      wrapsExternal err = noResponse e (sent s) Reconfigure)) \<and>
   (\<forall>f g m args.
      errorsIs (Errorf f [] (External m)) (External m) \<and>
      \<not> errorsIs (Errorf f [] (External m)) ErrRequestFailed \<and>
      \<not> errorsIs (Errorf f [] (Errorf g [] (External m))) ErrRequestFailed \<and>
      errorsIs (Errorf f args ErrRequestFailed) ErrRequestFailed)"
proof -
  have kinds: "\<forall>f g m args.
      errorsIs (Errorf f [] (External m)) (External m) \<and>
      \<not> errorsIs (Errorf f [] (External m)) ErrRequestFailed \<and>
      \<not> errorsIs (Errorf f [] (Errorf g [] (External m))) ErrRequestFailed \<and>
      errorsIs (Errorf f args ErrRequestFailed) ErrRequestFailed"
    by simp
  show ?thesis
    by (rule conjI [OF Records_outcome conjI [OF createTarget_outcome
          conjI [OF deleteEndpoint_outcome conjI [OF reconfigure_outcome kinds]]]])
qed

theorem transport_error_wrapped_witness:
  "NewRequest (testEnv []) Reconfigure = None \<and>
   Do (testEnv []) (sent newState) Reconfigure = TransportError ''connection refused'' \<and>
   fst (reconfigure (testEnv []) newState) =
     Some (Errorf ''reconfigure: %w'' [] (External ''connection refused'')) \<and>
   NewRequest (testEnv [badRequest]) Reconfigure = None \<and>
   Do (testEnv [badRequest]) (sent newState) Reconfigure = badRequest \<and>
   fst (reconfigure (testEnv [badRequest]) newState) =
     Some (Errorf ''response status: %v: %w'' [Num 400] ErrRequestFailed) \<and>
   (\<exists>err. fst (reconfigure (testEnv [badRequest]) newState) = Some err \<and>
      errorsIs err ErrRequestFailed) \<and>
   NewRequest (testEnv [ok ''failure'']) Reconfigure = None \<and>
   Do (testEnv [ok ''failure'']) (sent newState) Reconfigure = ok ''failure'' \<and>
   fst (reconfigure (testEnv [ok ''failure'']) newState) =
     Some (Errorf ''response %q: %w'' [Str ''failure''] ErrRequestFailed)"
proof -
  let ?bad = "\<lparr>StatusCode = 400, Status = ''400 Bad Request'', Body = [], BodyErr = None\<rparr>"
  let ?fail = "\<lparr>StatusCode = 200, Status = ''200 OK'', Body = ''failure'', BodyErr = None\<rparr>"
  have n1: "NewRequest (testEnv []) Reconfigure = None"
    and n2: "NewRequest (testEnv [badRequest]) Reconfigure = None"
    and n3: "NewRequest (testEnv [ok ''failure'']) Reconfigure = None"
    by (simp_all add: testEnv_def)
  have d1: "Do (testEnv []) (sent newState) Reconfigure = TransportError ''connection refused''"
    by (simp add: testEnv_def scripted_def newState_def)
  have d2: "Do (testEnv [badRequest]) (sent newState) Reconfigure = Response ?bad \<and>
      StatusCode ?bad \<noteq> StatusOK"
    by (simp add: testEnv_def scripted_def newState_def badRequest_def StatusOK_def)
  have d3: "Do (testEnv [ok ''failure'']) (sent newState) Reconfigure = Response ?fail \<and>
      StatusCode ?fail = StatusOK"
    by (simp add: testEnv_def scripted_def newState_def ok_def StatusOK_def)
  have u3: "UnmarshalOperationResponse (testEnv [ok ''failure'']) (Body ?fail) =
      (None, ''failure'')"
    by (simp add: testEnv_def)
  from transport_error_wrapped [of "testEnv []" newState] n1 d1
  have a: "fst (reconfigure (testEnv []) newState) =
     Some (Errorf ''reconfigure: %w'' [] (External ''connection refused''))"
    by blast
  from transport_error_wrapped [of "testEnv [badRequest]" newState] n2 d2
  have "fst (reconfigure (testEnv [badRequest]) newState) =
     Some (Errorf ''response status: %v: %w'' [Num (StatusCode ?bad)] ErrRequestFailed)"
    by blast
  then have b: "fst (reconfigure (testEnv [badRequest]) newState) =
     Some (Errorf ''response status: %v: %w'' [Num 400] ErrRequestFailed)"
    by simp
  from transport_error_wrapped [of "testEnv [ok ''failure'']" newState] n3 d3
  have "fst (reconfigure (testEnv [ok ''failure'']) newState) =
      (if fst (UnmarshalOperationResponse (testEnv [ok ''failure'']) (Body ?fail)) = None \<and>
          snd (UnmarshalOperationResponse (testEnv [ok ''failure'']) (Body ?fail)) = []
       then None
       else Some (Errorf ''response %q: %w''
                    [Str (snd (UnmarshalOperationResponse (testEnv [ok ''failure''])
                                 (Body ?fail)))]
                    ErrRequestFailed))"
    by blast
  then have c: "fst (reconfigure (testEnv [ok ''failure'']) newState) =
     Some (Errorf ''response %q: %w'' [Str ''failure''] ErrRequestFailed)"
    unfolding u3 by simp
  have e: "\<exists>err. fst (reconfigure (testEnv [badRequest]) newState) = Some err \<and>
      errorsIs err ErrRequestFailed"
    unfolding b by simp
  have d2': "Do (testEnv [badRequest]) (sent newState) Reconfigure = badRequest"
    by (simp add: testEnv_def scripted_def newState_def)
  have d3': "Do (testEnv [ok ''failure'']) (sent newState) Reconfigure = ok ''failure''"
    by (simp add: testEnv_def scripted_def newState_def)
  show ?thesis
    by (intro conjI n1 n2 n3 d1 d2' d3' a b c e)
qed

text \<open>
  The claim as it was stated fails for a read with no server to connect to: the error of
  \<open>Records\<close> wraps the transport error and is not testable as \<open>ErrRequestFailed\<close>.
\<close>

theorem Records_transport_counterexample:
  "fst (Records (testEnv []) newState) =
     Inl (Errorf ''records response: %w'' [] (External ''connection refused'')) \<and>
   \<not> errorsIs (Errorf ''records response: %w'' [] (External ''connection refused''))
        ErrRequestFailed"
proof
  show "fst (Records (testEnv []) newState) =
     Inl (Errorf ''records response: %w'' [] (External ''connection refused''))"
    by (simp add: Records_def apiRequest_def clientDo_def testEnv_def scripted_def newState_def)
  show "\<not> errorsIs (Errorf ''records response: %w'' [] (External ''connection refused''))
        ErrRequestFailed"
    by simp
qed

subsection \<open>The cache after a read\<close>

text \<open>
  Claim C10. When \<open>Records\<close> returns an error, whatever its cause, the ownership cache
  is the one from before the call; when it returns endpoints, the cache is the one built
  from exactly these endpoints.
\<close>

theorem Records_cache:
  "(\<forall>err s'. Records e s = (Inl err, s') \<longrightarrow> knownRecords s' = knownRecords s) \<and>
   (\<forall>endpoints s'. Records e s = (Inr endpoints, s') \<longrightarrow>
      knownRecords s' = cacheFromSlice endpoints)"
  by (auto simp add: Records_def clientDo_def updateReadRecords_def
           split: option.splits http_result.splits sum.splits if_splits prod.splits)

theorem Records_cache_witness:
  "fst (Records (testEnv [badRequest]) newState) =
     Inl (Errorf ''status %v: %w'' [Str ''400 Bad Request''] ErrRequestFailed) \<and>
   knownRecords (snd (Records (testEnv [badRequest]) newState)) = knownRecords newState \<and>
   fst (Records (testEnv [ok ''rows'']) newState) = Inr (ToEndpoints [fooRow]) \<and>
   knownRecords (snd (Records (testEnv [ok ''rows'']) newState)) =
     cacheFromSlice (ToEndpoints [fooRow])"
proof -
  have a: "fst (Records (testEnv [badRequest]) newState) =
     Inl (Errorf ''status %v: %w'' [Str ''400 Bad Request''] ErrRequestFailed)"
    by (simp add: Records_def testEnv_def apiRequest_def clientDo_def newState_def scripted_def
          badRequest_def StatusOK_def)
  have b: "fst (Records (testEnv [ok ''rows'']) newState) = Inr (ToEndpoints [fooRow])"
    by (simp add: Records_def testEnv_def apiRequest_def clientDo_def newState_def scripted_def
          ok_def StatusOK_def marshalEndpoints_def)
  from a have a': "Records (testEnv [badRequest]) newState =
     (Inl (Errorf ''status %v: %w'' [Str ''400 Bad Request''] ErrRequestFailed),
      snd (Records (testEnv [badRequest]) newState))"
    by (metis prod.collapse)
  from b have b': "Records (testEnv [ok ''rows'']) newState =
     (Inr (ToEndpoints [fooRow]), snd (Records (testEnv [ok ''rows'']) newState))"
    by (metis prod.collapse)
  from Records_cache [of "testEnv [badRequest]" newState] a'
  have c: "knownRecords (snd (Records (testEnv [badRequest]) newState)) = knownRecords newState"
    by blast
  from Records_cache [of "testEnv [ok ''rows'']" newState] b'
  have d: "knownRecords (snd (Records (testEnv [ok ''rows'']) newState)) =
     cacheFromSlice (ToEndpoints [fooRow])"
    by blast
  from a b c d show ?thesis by simp
qed

end
